theory Spec2Isabelle
  imports Complex_Main "HOL-Library.Char_ord" "HOL-Library.List_Lexorder"
begin

section \<open>Numbers\<close>

text \<open>
  The calculator works on JavaScript numbers. They are modelled as real numbers: every
  arithmetic operation is the exact one, \<open>Math.floor\<close> is \<open>floor\<close>, and the remainder
  operator \<open>%\<close> is the truncated remainder, whose result carries the sign of the dividend
  (IEEE \<open>fmod\<close> is exact, so this is the operator itself, not an approximation of it).
  A quotient with divisor zero is an infinity or NaN in the program and has no real value;
  the one place where the program can divide by zero (the ascendant) returns \<open>None\<close> there.
\<close>

definition trunc :: "real \<Rightarrow> int" where
  "trunc x = (if 0 \<le> x then \<lfloor>x\<rfloor> else \<lceil>x\<rceil>)"

definition jsmod :: "real \<Rightarrow> real \<Rightarrow> real" where
  "jsmod x y = x - y * of_int (trunc (x / y))"

text \<open>The remainder of two integral numbers, as \<open>%\<close> computes it.\<close>

definition jsrem :: "int \<Rightarrow> int \<Rightarrow> int" where
  "jsrem a b = (if 0 \<le> a then a mod \<bar>b\<bar> else - ((- a) mod \<bar>b\<bar>))"

datatype error = TypeError


section \<open>Dates and the Julian Day\<close>

text \<open>
  A \<open>Date\<close> is read through its local-time getters only, so it is modelled by what
  they return: the civil fields of the instant in the host's time zone. \<open>getMonth\<close> counts
  from 0. Milliseconds are never read.
\<close>

record date =
  getFullYear :: int
  getMonth :: int
  getDate :: int
  getHours :: int
  getMinutes :: int
  getSeconds :: int

definition calculateJulianDay :: "date \<Rightarrow> real" where
  "calculateJulianDay date =
    (let year = getFullYear date;
         month = getMonth date + 1;
         day = getDate date;
         hour = of_int (getHours date) + of_int (getMinutes date) / 60 + of_int (getSeconds date) / 3600;
         y = (if month > 2 then year else year - 1);
         m = (if month > 2 then month else month + 12);
         a = \<lfloor>(of_int y :: real) / 100\<rfloor>;
         b = 2 - a + \<lfloor>(of_int a :: real) / 4\<rfloor>
     in of_int \<lfloor>365.25 * (of_int (y + 4716) :: real)\<rfloor> + of_int \<lfloor>30.6001 * (of_int (m + 1) :: real)\<rfloor>
        + of_int day + hour / 24 + of_int b - 1524.5)"

text \<open>
  \<open>new Date("2000-01-01T12:00:00Z")\<close> is the instant 2000-01-01 12:00 UTC. Its local-time
  getters return that instant's civil fields in the host's time zone, here a zone \<open>tz\<close>
  minutes east of UTC (from \<open>-720\<close> to \<open>840\<close>, which covers every zone in use; the
  local day is then 1 or 2 January 2000).
\<close>

definition baseDate :: "int \<Rightarrow> date" where
  "baseDate tz =
    (let t = 720 + tz
     in \<lparr>getFullYear = 2000, getMonth = 0, getDate = 1 + t div 1440,
         getHours = (t mod 1440) div 60, getMinutes = t mod 60, getSeconds = 0\<rparr>)"

text \<open>
  \<open>new Date(`${birthdate}T${birthtime}`)\<close> has no zone designator and is read as local
  time: the getters return the fields as written.
\<close>

definition localDate :: "int \<Rightarrow> int \<Rightarrow> int \<Rightarrow> int \<Rightarrow> int \<Rightarrow> date" where
  "localDate year month day hh mm =
    \<lparr>getFullYear = year, getMonth = month - 1, getDate = day,
     getHours = hh, getMinutes = mm, getSeconds = 0\<rparr>"

text \<open>Civil date/times: the Gregorian calendar, and the order of two date/times.\<close>

definition leapYear :: "int \<Rightarrow> bool" where
  "leapYear y = (y mod 4 = 0 \<and> (y mod 100 \<noteq> 0 \<or> y mod 400 = 0))"

definition daysInMonth :: "int \<Rightarrow> int \<Rightarrow> int" where
  "daysInMonth y month =
    (if month = 2 then (if leapYear y then 29 else 28)
     else if month = 4 \<or> month = 6 \<or> month = 9 \<or> month = 11 then 30 else 31)"

definition validDate :: "date \<Rightarrow> bool" where
  "validDate d =
    (0 \<le> getMonth d \<and> getMonth d \<le> 11
     \<and> 1 \<le> getDate d \<and> getDate d \<le> daysInMonth (getFullYear d) (getMonth d + 1)
     \<and> 0 \<le> getHours d \<and> getHours d \<le> 23
     \<and> 0 \<le> getMinutes d \<and> getMinutes d \<le> 59
     \<and> 0 \<le> getSeconds d \<and> getSeconds d \<le> 59)"

definition secondOfDay :: "date \<Rightarrow> int" where
  "secondOfDay d = 3600 * getHours d + 60 * getMinutes d + getSeconds d"

definition earlier :: "date \<Rightarrow> date \<Rightarrow> bool" where
  "earlier s t =
    (getFullYear s < getFullYear t
     \<or> (getFullYear s = getFullYear t
        \<and> (getMonth s < getMonth t
           \<or> (getMonth s = getMonth t
              \<and> (getDate s < getDate t
                 \<or> (getDate s = getDate t \<and> secondOfDay s < secondOfDay t))))))"

text \<open>
  The integral part of the Julian Day formula for a year, a month (counted from 1) and a
  day, in integer arithmetic; and the same for day 0 of the month numbered \<open>k\<close>, where
  \<open>k = 12 * year + (month - 1)\<close> counts the months of the calendar in a row.
\<close>

definition dayNumber :: "int \<Rightarrow> int \<Rightarrow> int \<Rightarrow> int" where
  "dayNumber year month day =
    (let y = (if month > 2 then year else year - 1);
         m = (if month > 2 then month else month + 12);
         a = y div 100;
         b = 2 - a + a div 4
     in (1461 * (y + 4716)) div 4 + (306001 * (m + 1)) div 10000 + day + b)"

definition yearTerm :: "int \<Rightarrow> int" where
  "yearTerm y = (1461 * (y + 4716)) div 4 - y div 100 + (y div 100) div 4"

definition monthStart :: "int \<Rightarrow> int" where
  "monthStart k = dayNumber (k div 12) (k mod 12 + 1) 0"

definition monthLength :: "int \<Rightarrow> int" where
  "monthLength k = daysInMonth (k div 12) (k mod 12 + 1)"

section \<open>Planetary positions\<close>

text \<open>
  The planet registry, in the order of its keys. The display attributes \<open>symbol\<close> and
  \<open>color\<close> are copied through unchanged by the program and play no part here.
\<close>

record planetInfo =
  name :: string
  orbSpeed :: real

definition planets :: "(string \<times> planetInfo) list" where
  "planets =
    [(''sun'', \<lparr>name = ''Sun'', orbSpeed = 1\<rparr>),
     (''moon'', \<lparr>name = ''Moon'', orbSpeed = 13.2\<rparr>),
     (''mercury'', \<lparr>name = ''Mercury'', orbSpeed = 4.1\<rparr>),
     (''venus'', \<lparr>name = ''Venus'', orbSpeed = 1.6\<rparr>),
     (''mars'', \<lparr>name = ''Mars'', orbSpeed = 0.5\<rparr>),
     (''jupiter'', \<lparr>name = ''Jupiter'', orbSpeed = 0.08\<rparr>),
     (''saturn'', \<lparr>name = ''Saturn'', orbSpeed = 0.03\<rparr>),
     (''uranus'', \<lparr>name = ''Uranus'', orbSpeed = 0.01\<rparr>),
     (''neptune'', \<lparr>name = ''Neptune'', orbSpeed = 0.006\<rparr>),
     (''pluto'', \<lparr>name = ''Pluto'', orbSpeed = 0.004\<rparr>)]"

text \<open>
  A position is the registry entry (the spread \<open>...planets[planet]\<close>) extended by the
  computed fields. \<open>degree\<close> is the number that the program stores rendered to two decimals.
\<close>

record planetPosition = planetInfo +
  longitude :: real
  latitude :: real
  sign :: int
  degree :: real
  isRetrograde :: bool

definition baseJD :: "int \<Rightarrow> real" where
  "baseJD tz = calculateJulianDay (baseDate tz)"

text \<open>
  The perturbation term of one planet; \<open>rnd\<close> is the value \<open>Math.random()\<close> returned for
  it, a number in \<open>[0, 1)\<close>.
\<close>

definition randomOffset :: "real \<Rightarrow> real \<Rightarrow> real" where
  "randomOffset daysSinceJ2000 rnd = sin (daysSinceJ2000 * (0.1 + rnd * 0.05)) * 15"

text \<open>The position before the perturbation, and the longitude with a perturbation \<open>off\<close>.\<close>

definition basePosition :: "real \<Rightarrow> real \<Rightarrow> real" where
  "basePosition daysSinceJ2000 speed = jsmod (daysSinceJ2000 * speed) 360"

definition degreeInZodiac :: "real \<Rightarrow> real \<Rightarrow> real \<Rightarrow> real" where
  "degreeInZodiac daysSinceJ2000 speed off = jsmod (basePosition daysSinceJ2000 speed + off + 360) 360"

text \<open>The body of the loop over the registry, for one planet with the offset \<open>off\<close>.\<close>

definition positionOf :: "real \<Rightarrow> real \<Rightarrow> string \<Rightarrow> planetInfo \<Rightarrow> planetPosition" where
  "positionOf daysSinceJ2000 off planet info =
    (let d = degreeInZodiac daysSinceJ2000 (orbSpeed info) off;
         signIndex = \<lfloor>d / 30\<rfloor>;
         degreeInSign = jsmod d 30
     in \<lparr>name = name info, orbSpeed = orbSpeed info,
         longitude = d,
         latitude = sin (daysSinceJ2000 * 0.1 + real (length planet)) * 5,
         sign = signIndex,
         degree = degreeInSign,
         isRetrograde = (sin (daysSinceJ2000 * 0.05 + real (of_char (hd planet) :: nat)) > 0.7)\<rparr>)"

text \<open>
  \<open>calculatePlanetaryPositions\<close> on a host \<open>tz\<close> minutes east of UTC, where \<open>random planet\<close>
  is the value \<open>Math.random()\<close> returns in the iteration of that planet. The two location
  arguments are not used by the program.
\<close>

definition calculatePlanetaryPositions ::
    "int \<Rightarrow> (string \<Rightarrow> real) \<Rightarrow> real \<Rightarrow> real \<Rightarrow> real \<Rightarrow> (string \<times> planetPosition) list" where
  "calculatePlanetaryPositions tz random jd lat lon =
    (let daysSinceJ2000 = jd - baseJD tz
     in map (\<lambda>(planet, info).
              (planet, positionOf daysSinceJ2000 (randomOffset daysSinceJ2000 (random planet)) planet info))
            planets)"

section \<open>Essential dignities\<close>

text \<open>
  A dignity entry of the table is a single sign, a list of signs, or \<open>null\<close>.
\<close>

datatype signs = Single int | Many "int list" | Null

record dignityEntry =
  rulership :: signs
  exaltation :: signs
  detriment :: signs
  fall :: signs

definition dignities :: "(string \<times> dignityEntry) list" where
  "dignities =
    [(''sun'', \<lparr>rulership = Single 4, exaltation = Single 0, detriment = Single 10, fall = Single 6\<rparr>),
     (''moon'', \<lparr>rulership = Single 3, exaltation = Single 1, detriment = Single 9, fall = Single 7\<rparr>),
     (''mercury'', \<lparr>rulership = Many [2, 5], exaltation = Null, detriment = Many [8, 11], fall = Null\<rparr>),
     (''venus'', \<lparr>rulership = Many [1, 6], exaltation = Single 11, detriment = Many [7, 0], fall = Single 5\<rparr>),
     (''mars'', \<lparr>rulership = Many [0, 7], exaltation = Single 9, detriment = Many [1, 6], fall = Single 3\<rparr>),
     (''jupiter'', \<lparr>rulership = Many [8, 11], exaltation = Single 3, detriment = Many [2, 5], fall = Single 9\<rparr>),
     (''saturn'', \<lparr>rulership = Many [9, 10], exaltation = Single 6, detriment = Many [3, 4], fall = Single 0\<rparr>),
     (''uranus'', \<lparr>rulership = Single 10, exaltation = Null, detriment = Single 4, fall = Null\<rparr>),
     (''neptune'', \<lparr>rulership = Single 11, exaltation = Null, detriment = Single 5, fall = Null\<rparr>),
     (''pluto'', \<lparr>rulership = Single 7, exaltation = Null, detriment = Single 1, fall = Null\<rparr>)]"

text \<open>\<open>e === signIndex\<close>: strict equality with a number holds for a single sign only.\<close>

fun strictEq :: "signs \<Rightarrow> int \<Rightarrow> bool" where
  "strictEq (Single n) s = (n = s)"
| "strictEq (Many ns) s = False"
| "strictEq Null s = False"

text \<open>\<open>Array.isArray(e) && e.includes(signIndex)\<close>.\<close>

fun arrayIncludes :: "signs \<Rightarrow> int \<Rightarrow> bool" where
  "arrayIncludes (Many ns) s = (s \<in> set ns)"
| "arrayIncludes (Single n) s = False"
| "arrayIncludes Null s = False"

definition getPlanetDignity :: "string \<Rightarrow> int \<Rightarrow> string" where
  "getPlanetDignity planet signIndex =
    (case map_of dignities planet of
       None \<Rightarrow> ''Neutral''
     | Some planetDignity \<Rightarrow>
         if strictEq (rulership planetDignity) signIndex
            \<or> arrayIncludes (rulership planetDignity) signIndex then ''Rulership''
         else if strictEq (exaltation planetDignity) signIndex then ''Exaltation''
         else if strictEq (detriment planetDignity) signIndex
            \<or> arrayIncludes (detriment planetDignity) signIndex then ''Detriment''
         else if strictEq (fall planetDignity) signIndex then ''Fall''
         else ''Neutral'')"

text \<open>The signs an entry stands for, as a set.\<close>

fun signSet :: "signs \<Rightarrow> int set" where
  "signSet (Single n) = {n}"
| "signSet (Many ns) = set ns"
| "signSet Null = {}"

definition planetKeys :: "string list" where
  "planetKeys = [''sun'', ''moon'', ''mercury'', ''venus'', ''mars'', ''jupiter'', ''saturn'',
                 ''uranus'', ''neptune'', ''pluto'']"

definition dignityCategories :: "string set" where
  "dignityCategories = {''Rulership'', ''Exaltation'', ''Detriment'', ''Fall'', ''Neutral''}"

section \<open>House placement\<close>

record houseCusp =
  number :: nat
  cusp :: real
  system :: string

text \<open>
  The loop of \<open>determinePlanetHouse\<close> over \<open>i = 0, ..., 11\<close>, as a recursion over the list of
  the indices still to visit. Reading \<open>houses[i].cusp\<close> beyond the end of the list is a
  \<open>TypeError\<close> in the program (the element is \<open>undefined\<close>).
\<close>

definition cuspAt :: "houseCusp list \<Rightarrow> nat \<Rightarrow> error + real" where
  "cuspAt houses i = (if i < length houses then Inr (cusp (houses ! i)) else Inl TypeError)"

fun houseLoop :: "real \<Rightarrow> houseCusp list \<Rightarrow> nat list \<Rightarrow> error + nat" where
  "houseLoop planetLongitude houses [] = Inr 1"
| "houseLoop planetLongitude houses (i # is) =
    (case cuspAt houses i of
       Inl e \<Rightarrow> Inl e
     | Inr houseStart \<Rightarrow>
        (case cuspAt houses ((i + 1) mod 12) of
           Inl e \<Rightarrow> Inl e
         | Inr houseEnd \<Rightarrow>
            if houseEnd < houseStart then
              (if planetLongitude \<ge> houseStart \<or> planetLongitude < houseEnd then Inr (i + 1)
               else houseLoop planetLongitude houses is)
            else
              (if planetLongitude \<ge> houseStart \<and> planetLongitude < houseEnd then Inr (i + 1)
               else houseLoop planetLongitude houses is)))"

definition determinePlanetHouse :: "planetPosition \<Rightarrow> houseCusp list \<Rightarrow> error + nat" where
  "determinePlanetHouse planetPosition houses = houseLoop (longitude planetPosition) houses [0..<12]"

text \<open>The arc of house \<open>i + 1\<close> contains the longitude, with the wraparound at 0 degrees.\<close>

definition inArc :: "real \<Rightarrow> houseCusp list \<Rightarrow> nat \<Rightarrow> bool" where
  "inArc l houses i =
    (let houseStart = cusp (houses ! i); houseEnd = cusp (houses ! ((i + 1) mod 12))
     in if houseEnd < houseStart then l \<ge> houseStart \<or> l < houseEnd
        else l \<ge> houseStart \<and> l < houseEnd)"

section \<open>House cusps\<close>

definition calculateLocalSiderealTime :: "real \<Rightarrow> real \<Rightarrow> real" where
  "calculateLocalSiderealTime jd lon =
    (let T = (jd - 2451545.0) / 36525;
         \<theta> = 280.46061837 + 360.98564736629 * (jd - 2451545.0) + 0.000387933 * T * T
             - T * T * T / 38710000
     in jsmod (\<theta> + lon) 360)"

text \<open>The divisor of the ascendant formula.\<close>

definition ascendantDivisor :: "real \<Rightarrow> real \<Rightarrow> real \<Rightarrow> real" where
  "ascendantDivisor jd lat lon =
    (let LMST = calculateLocalSiderealTime jd lon;
         latRad = lat * pi / 180;
         lstRad = LMST * pi / 180
     in sin lstRad * cos latRad - tan 0 * sin latRad)"

text \<open>
  The program's numbers are doubles, the model's are reals. The program has no branch for
  a zero divisor. Where the real divisor is zero, the program's is a zero or a rounding
  error of the order of \<open>1e-16\<close>; its quotient is an infinity or of the order of \<open>1e16\<close>,
  \<open>Math.atan\<close> takes either to a quarter turn, and the ascendant is 90 or 270. Which of
  the two depends on the sign of the divisor, which the double has and the real zero has
  not. It is computed here by the rules of the doubles, for latitudes from -90 to 90. The
  remainder \<open>%\<close> has the sign of its dividend, so \<open>LMST\<close> is negative, or the negative zero,
  when \<open>\<theta> + longitude\<close> is negative. \<open>Math.sin\<close> keeps the sign of a zero argument, and
  at a half turn, where the double is not zero, it has the sign of its argument.
  \<open>Math.cos\<close> of a quarter turn is not zero but positive. A product has the signs of its
  factors. At the sidereal time 0 the product is a zero and the divisor the difference of
  two zeros, which is the negative zero only for \<open>-0 - +0\<close>; elsewhere the product is not
  zero, and subtracting a zero leaves it as it is.
\<close>

definition negativeLMST :: "real \<Rightarrow> real \<Rightarrow> bool" where
  "negativeLMST jd lon =
    (let T = (jd - 2451545.0) / 36525;
         \<theta> = 280.46061837 + 360.98564736629 * (jd - 2451545.0) + 0.000387933 * T * T
             - T * T * T / 38710000
     in \<theta> + lon < 0)"

definition negativeZeroDivisor :: "real \<Rightarrow> real \<Rightarrow> real \<Rightarrow> bool" where
  "negativeZeroDivisor jd lat lon =
    (let LMST = calculateLocalSiderealTime jd lon;
         latRad = lat * pi / 180;
         lstRad = LMST * pi / 180;
         negativeSin = (if sin lstRad = 0 then negativeLMST jd lon else sin lstRad < 0);
         negativeCos = (cos latRad < 0);
         negativeProduct = (negativeSin \<noteq> negativeCos);
         negativeTerm = (if sin latRad = 0 then lat < 0 else sin latRad < 0)
     in if LMST = 0 then negativeProduct \<and> \<not> negativeTerm else negativeProduct)"

text \<open>
  \<open>Math.atan (-Math.cos (lstRad) / divisor)\<close>: the arc tangent of the quotient, and a
  quarter turn with the sign of the quotient where the divisor is zero. Zero over zero is
  NaN (here \<open>None\<close>); the program's doubles are two rounding errors there, and their
  quotient has no counterpart in the reals.
\<close>

definition atanQuotient :: "real \<Rightarrow> real \<Rightarrow> bool \<Rightarrow> real option" where
  "atanQuotient numerator divisor negativeZero =
    (if divisor \<noteq> 0 then Some (arctan (numerator / divisor))
     else if numerator = 0 then None
     else if (numerator < 0) \<noteq> negativeZero then Some (- (pi / 2))
     else Some (pi / 2))"

text \<open>
  A NaN stays a NaN through the rest of the function, and \<open>Math.cos (lstRad) > 0\<close> is false
  where the numerator is zero.
\<close>

definition calculateAscendant :: "real \<Rightarrow> real \<Rightarrow> real \<Rightarrow> real option" where
  "calculateAscendant jd lat lon =
    (let LMST = calculateLocalSiderealTime jd lon;
         latRad = lat * pi / 180;
         lstRad = LMST * pi / 180
     in case atanQuotient (- cos lstRad) (sin lstRad * cos latRad - tan 0 * sin latRad)
               (negativeZeroDivisor jd lat lon) of
          None \<Rightarrow> None
        | Some atanAsc \<Rightarrow>
            let asc = atanAsc * 180 / pi;
                asc' = (if cos lstRad > 0 then asc + 180 else asc)
            in Some (jsmod (asc' + 360) 360))"

definition calculateMidheaven :: "real \<Rightarrow> real" where
  "calculateMidheaven LMST = jsmod LMST 360"

text \<open>The loop of the equal house system: one push for each \<open>i = 0, ..., 11\<close>.\<close>

definition equalLoop :: "(real \<Rightarrow> real \<Rightarrow> real) \<Rightarrow> real \<Rightarrow> houseCusp list" where
  "equalLoop add asc =
    map (\<lambda>i. \<lparr>number = i + 1, cusp = jsmod (add asc (real i * 30)) 360, system = ''Equal''\<rparr>) [0..<12]"

text \<open>
  The loop is written over the addition \<open>add\<close> of \<open>ascendant + i * 30\<close>, since what a
  cusp is to the last digit depends on it. The chart is computed with reals, and there the
  addition is the sum of reals.
\<close>

definition equalHouses :: "real \<Rightarrow> houseCusp list" where
  "equalHouses asc = equalLoop (+) asc"







text \<open>
  The other branch pushes the twelve cusps in the program's order (1, 10, 2, 3, 4, ...),
  some of them computed from elements pushed before, read by their index in the array as it
  stands, and sorts the array by house number at the end.
\<close>

definition placidusHouses :: "real \<Rightarrow> real \<Rightarrow> real \<Rightarrow> houseCusp list" where
  "placidusHouses asc mc lat =
    (let h1 = [\<lparr>number = 1, cusp = asc, system = ''Placidus''\<rparr>];
         h2 = h1 @ [\<lparr>number = 10, cusp = mc, system = ''Placidus''\<rparr>];
         h3 = h2 @ [\<lparr>number = 2, cusp = jsmod (asc + 30 + sin (lat * 0.1) * 5) 360, system = ''Placidus''\<rparr>];
         h4 = h3 @ [\<lparr>number = 3, cusp = jsmod (asc + 60 + sin (lat * 0.2) * 7) 360, system = ''Placidus''\<rparr>];
         h5 = h4 @ [\<lparr>number = 4, cusp = jsmod (mc + 180) 360, system = ''Placidus''\<rparr>];
         h6 = h5 @ [\<lparr>number = 5, cusp = jsmod (cusp (h5 ! 3) + 180) 360, system = ''Placidus''\<rparr>];
         h7 = h6 @ [\<lparr>number = 6, cusp = jsmod (cusp (h6 ! 2) + 180) 360, system = ''Placidus''\<rparr>];
         h8 = h7 @ [\<lparr>number = 7, cusp = jsmod (asc + 180) 360, system = ''Placidus''\<rparr>];
         h9 = h8 @ [\<lparr>number = 8, cusp = jsmod (cusp (h8 ! 6) + 30 + sin (lat * 0.1) * 5) 360, system = ''Placidus''\<rparr>];
         h10 = h9 @ [\<lparr>number = 9, cusp = jsmod (cusp (h9 ! 6) + 60 + sin (lat * 0.2) * 7) 360, system = ''Placidus''\<rparr>];
         h11 = h10 @ [\<lparr>number = 11, cusp = jsmod (mc + 30 + sin (lat * 0.1) * 5) 360, system = ''Placidus''\<rparr>];
         h12 = h11 @ [\<lparr>number = 12, cusp = jsmod (mc + 60 + sin (lat * 0.2) * 7) 360, system = ''Placidus''\<rparr>]
     in sort_key number h12)"

text \<open>
  Where the ascendant has no value the model has no list of cusps (\<open>None\<close>). That is only
  where both \<open>cos (lstRad)\<close> and \<open>cos (latRad)\<close> are the real zero: at a pole, with the
  sidereal time at 90 or 270.
\<close>

definition calculateHouses :: "real \<Rightarrow> real \<Rightarrow> real \<Rightarrow> string \<Rightarrow> houseCusp list option" where
  "calculateHouses jd lat lon sys =
    (let LMST = calculateLocalSiderealTime jd lon
     in case calculateAscendant jd lat lon of
          None \<Rightarrow> None
        | Some asc \<Rightarrow>
            if sys = ''equal'' then Some (equalHouses asc)
            else Some (placidusHouses asc (calculateMidheaven LMST) lat))"

section \<open>Aspects\<close>

text \<open>
  The aspect table in the order of its keys, and an aspect as the program records it. The
  glyph \<open>symbol\<close> is left out; \<open>angle\<close> and \<open>orb\<close> are the numbers that the program stores
  rendered to two decimals.
\<close>

record aspectType =
  typeAngle :: real
  typeOrb :: real
  typeName :: string
  typeInfluence :: string

definition aspectTypes :: "(string \<times> aspectType) list" where
  "aspectTypes =
    [(''conjunction'', \<lparr>typeAngle = 0, typeOrb = 8, typeName = ''Conjunction'', typeInfluence = ''Strong''\<rparr>),
     (''opposition'', \<lparr>typeAngle = 180, typeOrb = 8, typeName = ''Opposition'', typeInfluence = ''Strong''\<rparr>),
     (''trine'', \<lparr>typeAngle = 120, typeOrb = 8, typeName = ''Trine'', typeInfluence = ''Harmonious''\<rparr>),
     (''square'', \<lparr>typeAngle = 90, typeOrb = 7, typeName = ''Square'', typeInfluence = ''Challenging''\<rparr>),
     (''sextile'', \<lparr>typeAngle = 60, typeOrb = 6, typeName = ''Sextile'', typeInfluence = ''Harmonious''\<rparr>),
     (''semisextile'', \<lparr>typeAngle = 30, typeOrb = 3, typeName = ''Semi-sextile'', typeInfluence = ''Mild''\<rparr>),
     (''semisquare'', \<lparr>typeAngle = 45, typeOrb = 3, typeName = ''Semi-square'', typeInfluence = ''Challenging''\<rparr>),
     (''sesquiquadrate'', \<lparr>typeAngle = 135, typeOrb = 3, typeName = ''Sesquiquadrate'', typeInfluence = ''Challenging''\<rparr>),
     (''quincunx'', \<lparr>typeAngle = 150, typeOrb = 5, typeName = ''Quincunx'', typeInfluence = ''Adjustment''\<rparr>),
     (''quintile'', \<lparr>typeAngle = 72, typeOrb = 2, typeName = ''Quintile'', typeInfluence = ''Creative''\<rparr>),
     (''biquintile'', \<lparr>typeAngle = 144, typeOrb = 2, typeName = ''Biquintile'', typeInfluence = ''Creative''\<rparr>)]"

record aspect =
  planet1 :: string
  planet2 :: string
  type :: string
  angle :: real
  orb :: real
  aspectName :: string
  influence :: string
  applying :: bool

text \<open>The angle between two longitudes, as the pair loop computes it.\<close>

definition separation :: "real \<Rightarrow> real \<Rightarrow> real" where
  "separation pos1 pos2 = (let a = \<bar>pos1 - pos2\<bar> in if a > 180 then 360 - a else a)"

text \<open>
  The loop over the aspect types for one pair: the first type whose orb test passes is
  recorded and the loop is left (\<open>break\<close>).
\<close>

fun checkAspectTypes ::
    "string \<times> planetPosition \<Rightarrow> string \<times> planetPosition \<Rightarrow> (string \<times> aspectType) list \<Rightarrow> aspect list" where
  "checkAspectTypes p q [] = []"
| "checkAspectTypes p q ((aspectType, a) # rest) =
    (let pos1 = longitude (snd p); pos2 = longitude (snd q);
         ang = separation pos1 pos2;
         orb' = \<bar>ang - typeAngle a\<bar>
     in if orb' \<le> typeOrb a then
          [\<lparr>planet1 = fst p, planet2 = fst q, type = aspectType, angle = ang, orb = orb',
            aspectName = typeName a, influence = typeInfluence a,
            applying = (if pos1 < pos2
                        then (if isRetrograde (snd p) = isRetrograde (snd q) then False else True)
                        else (if isRetrograde (snd p) = isRetrograde (snd q) then True else False))\<rparr>]
        else checkAspectTypes p q rest)"

text \<open>The inner loop (\<open>j\<close> from \<open>i + 1\<close>) and the outer loop (\<open>i\<close>) over the keys.\<close>

fun pairLoop :: "string \<times> planetPosition \<Rightarrow> (string \<times> planetPosition) list \<Rightarrow> aspect list" where
  "pairLoop p [] = []"
| "pairLoop p (q # rest) = checkAspectTypes p q aspectTypes @ pairLoop p rest"

fun calculateAspects :: "(string \<times> planetPosition) list \<Rightarrow> aspect list" where
  "calculateAspects [] = []"
| "calculateAspects (p # rest) = pairLoop p rest @ calculateAspects rest"

text \<open>The orb test of a table entry, and the aspects recorded for an unordered pair.\<close>

definition orbTest :: "real \<Rightarrow> aspectType \<Rightarrow> bool" where
  "orbTest ang a = (\<bar>ang - typeAngle a\<bar> \<le> typeOrb a)"

definition joins :: "aspect \<Rightarrow> string \<Rightarrow> string \<Rightarrow> bool" where
  "joins a x y = ((planet1 a = x \<and> planet2 a = y) \<or> (planet1 a = y \<and> planet2 a = x))"

section \<open>The assembled chart\<close>

record natalChart =
  chartPlanets :: "(string \<times> planetPosition) list"
  chartHouses :: "houseCusp list"
  chartAspects :: "aspect list"
  ascendant :: real
  midheaven :: real
  julianDay :: real

text \<open>
  \<open>date\<close> is the \<open>Date\<close> built from the birth date and time. The reads \<open>houses[0]\<close> and
  \<open>houses[9]\<close> are within the twelve elements that \<open>calculateHouses\<close> returns.
\<close>

definition calculateNatalChart ::
    "int \<Rightarrow> (string \<Rightarrow> real) \<Rightarrow> date \<Rightarrow> real \<Rightarrow> real \<Rightarrow> string \<Rightarrow> natalChart option" where
  "calculateNatalChart tz random date lat lon houseSystem =
    (let JD = calculateJulianDay date;
         planetPositions = calculatePlanetaryPositions tz random JD lat lon
     in case calculateHouses JD lat lon houseSystem of
          None \<Rightarrow> None
        | Some houses \<Rightarrow>
            Some \<lparr>chartPlanets = planetPositions, chartHouses = houses,
                  chartAspects = calculateAspects planetPositions,
                  ascendant = cusp (houses ! 0), midheaven = cusp (houses ! 9),
                  julianDay = JD\<rparr>)"

section \<open>Special patterns\<close>

text \<open>\<open>elements[signIndex % 4]\<close>: \<open>undefined\<close> (here \<open>None\<close>) when the remainder is negative.\<close>

definition getSignElement :: "int \<Rightarrow> string option" where
  "getSignElement signIndex =
    (let r = jsrem signIndex 4
     in if 0 \<le> r \<and> r < 4 then Some ([''Fire'', ''Earth'', ''Air'', ''Water''] ! nat r) else None)"

text \<open>
  A pattern is one of the two objects that \<open>findSpecialPatterns\<close> pushes: a Grand Trine
  with the key of its planets and its element, or a T-Square with the key of its planets
  and its focal planet. The interpretation sentence, a text template over the element or
  the focal planet, is left out.
\<close>

datatype pattern = GrandTrine string "string option" | TSquare string string

fun patternPlanets :: "pattern \<Rightarrow> string" where
  "patternPlanets (GrandTrine k e) = k"
| "patternPlanets (TSquare k f) = k"

text \<open>\<open>[p1, p2, p3].sort().join('-')\<close>: the default sort compares the strings by code unit.\<close>

fun join :: "string \<Rightarrow> string list \<Rightarrow> string" where
  "join sep [] = []"
| "join sep [x] = x"
| "join sep (x # y # rest) = x @ sep @ join sep (y # rest)"

definition tripletKey :: "string \<Rightarrow> string \<Rightarrow> string \<Rightarrow> string" where
  "tripletKey p1 p2 p3 = join ''-'' (sort [p1, p2, p3])"

text \<open>\<open>patterns.some(p => p.planets === pattern)\<close>.\<close>

definition alreadyAdded :: "pattern list \<Rightarrow> string \<Rightarrow> bool" where
  "alreadyAdded patterns k = list_ex (\<lambda>p. patternPlanets p = k) patterns"

text \<open>
  \<open>trineGroups\<close> is an object whose values are Sets: both keep the order of insertion, so
  it is a list of keys, each with the list of its members. (The keys are planet names; a
  key that is a canonical array index would be enumerated first by \<open>for ... in\<close>.)
\<close>

type_synonym groups = "(string \<times> string list) list"

text \<open>
  The object is created by \<open>{}\<close>, so reading a key that it does not own finds what
  \<open>Object.prototype\<close> has under that name: a function, or for \<open>__proto__\<close> the prototype
  itself. None of them is falsy and none has a method \<open>add\<close>: for such a key no Set is
  made, and the call of \<open>add\<close> is a \<open>TypeError\<close>.
\<close>

definition objectPrototypeNames :: "string list" where
  "objectPrototypeNames =
    [''constructor'', ''__defineGetter__'', ''__defineSetter__'', ''hasOwnProperty'',
     ''__lookupGetter__'', ''__lookupSetter__'', ''isPrototypeOf'', ''propertyIsEnumerable'',
     ''toString'', ''valueOf'', ''__proto__'', ''toLocaleString'']"

text \<open>\<open>if (!trineGroups[p]) trineGroups[p] = new Set()\<close>.\<close>

definition ensureGroup :: "string \<Rightarrow> groups \<Rightarrow> groups" where
  "ensureGroup p g =
    (if map_of g p = None \<and> p \<notin> set objectPrototypeNames then g @ [(p, [])] else g)"

text \<open>\<open>trineGroups[p].add(q)\<close>.\<close>

definition groupAdd :: "string \<Rightarrow> string \<Rightarrow> groups \<Rightarrow> error + groups" where
  "groupAdd p q g =
    (if map_of g p = None then Inl TypeError
     else Inr (map (\<lambda>(k, s). if k = p then (k, if q \<in> set s then s else s @ [q]) else (k, s)) g))"

definition addTrine :: "groups \<Rightarrow> aspect \<Rightarrow> error + groups" where
  "addTrine g trine =
    (let p1 = planet1 trine; p2 = planet2 trine
     in case groupAdd p1 p2 (ensureGroup p2 (ensureGroup p1 g)) of
          Inl e \<Rightarrow> Inl e
        | Inr g' \<Rightarrow> groupAdd p2 p1 g')"

text \<open>\<open>trines.forEach\<close>: an exception leaves the loop and the function.\<close>

fun forEachTrine :: "groups \<Rightarrow> aspect list \<Rightarrow> error + groups" where
  "forEachTrine g [] = Inr g"
| "forEachTrine g (trine # rest) =
    (case addTrine g trine of
       Inl e \<Rightarrow> Inl e
     | Inr g' \<Rightarrow> forEachTrine g' rest)"

text \<open>
  The body of the three nested loops over \<open>trineGroups\<close>. The call of \<open>has\<close> on
  \<open>trineGroups[p2]\<close> is a \<open>TypeError\<close> where the object does not own the key \<open>p2\<close>, and so is
  the read of \<open>planets[p1].longitude\<close> where \<open>planets\<close>, a plain object too, has nothing under
  \<open>p1\<close>; under a name of \<open>Object.prototype\<close> it has a value without a longitude, and the
  element of the sign index NaN is \<open>undefined\<close>.
\<close>

definition considerTriad ::
    "(string \<times> planetPosition) list \<Rightarrow> groups \<Rightarrow> string \<Rightarrow> string \<Rightarrow> string \<Rightarrow> pattern list
      \<Rightarrow> error + pattern list" where
  "considerTriad pls g p1 p2 p3 patterns =
    (if p2 = p3 then Inr patterns
     else
       (case map_of g p2 of
          None \<Rightarrow> Inl TypeError
        | Some s2 \<Rightarrow>
           (if p3 \<notin> set s2 then Inr patterns
            else if alreadyAdded patterns (tripletKey p1 p2 p3) then Inr patterns
            else
              (case map_of pls p1 of
                 None \<Rightarrow>
                   (if p1 \<in> set objectPrototypeNames
                    then Inr (patterns @ [GrandTrine (tripletKey p1 p2 p3) None])
                    else Inl TypeError)
               | Some pos \<Rightarrow>
                   Inr (patterns @
                        [GrandTrine (tripletKey p1 p2 p3) (getSignElement \<lfloor>longitude pos / 30\<rfloor>)])))))"

fun loopP3 ::
    "(string \<times> planetPosition) list \<Rightarrow> groups \<Rightarrow> string \<Rightarrow> string \<Rightarrow> string list \<Rightarrow> pattern list
      \<Rightarrow> error + pattern list" where
  "loopP3 pls g p1 p2 [] patterns = Inr patterns"
| "loopP3 pls g p1 p2 (p3 # rest) patterns =
    (case considerTriad pls g p1 p2 p3 patterns of
       Inl e \<Rightarrow> Inl e
     | Inr patterns' \<Rightarrow> loopP3 pls g p1 p2 rest patterns')"

fun loopP2 ::
    "(string \<times> planetPosition) list \<Rightarrow> groups \<Rightarrow> string \<Rightarrow> string list \<Rightarrow> string list \<Rightarrow> pattern list
      \<Rightarrow> error + pattern list" where
  "loopP2 pls g p1 s [] patterns = Inr patterns"
| "loopP2 pls g p1 s (p2 # rest) patterns =
    (case loopP3 pls g p1 p2 s patterns of
       Inl e \<Rightarrow> Inl e
     | Inr patterns' \<Rightarrow> loopP2 pls g p1 s rest patterns')"

fun loopP1 ::
    "(string \<times> planetPosition) list \<Rightarrow> groups \<Rightarrow> groups \<Rightarrow> pattern list \<Rightarrow> error + pattern list" where
  "loopP1 pls g [] patterns = Inr patterns"
| "loopP1 pls g ((p1, s) # rest) patterns =
    (case loopP2 pls g p1 s s patterns of
       Inl e \<Rightarrow> Inl e
     | Inr patterns' \<Rightarrow> loopP1 pls g rest patterns')"

text \<open>The body of the two nested loops of the T-Square search.\<close>

definition considerSquare :: "aspect list \<Rightarrow> string \<Rightarrow> string \<Rightarrow> pattern list \<Rightarrow> aspect \<Rightarrow> pattern list" where
  "considerSquare squares p1 p2 patterns square =
    (if (planet1 square = p1 \<and> planet2 square \<noteq> p2) \<or> (planet1 square = p2 \<and> planet2 square \<noteq> p1) then
       let p3 = (if planet1 square = p1 \<or> planet1 square = p2 then planet2 square else planet1 square);
           hasOtherSquare =
             list_ex (\<lambda>sq. (planet1 sq = p3 \<and> (planet2 sq = p1 \<or> planet2 sq = p2))
                          \<or> (planet2 sq = p3 \<and> (planet1 sq = p1 \<or> planet1 sq = p2))) squares
       in if hasOtherSquare then
            (if alreadyAdded patterns (tripletKey p1 p2 p3) then patterns
             else patterns @ [TSquare (tripletKey p1 p2 p3) p3])
          else patterns
     else patterns)"

definition considerOpposition :: "aspect list \<Rightarrow> pattern list \<Rightarrow> aspect \<Rightarrow> pattern list" where
  "considerOpposition squares patterns opposition =
    foldl (considerSquare squares (planet1 opposition) (planet2 opposition)) patterns squares"

definition findSpecialPatterns :: "natalChart \<Rightarrow> error + pattern list" where
  "findSpecialPatterns chartData =
    (let trines = filter (\<lambda>a. type a = ''trine'') (chartAspects chartData)
     in case forEachTrine [] trines of
          Inl e \<Rightarrow> Inl e
        | Inr trineGroups \<Rightarrow>
            (case loopP1 (chartPlanets chartData) trineGroups trineGroups [] of
               Inl e \<Rightarrow> Inl e
             | Inr patterns \<Rightarrow>
                 let squares = filter (\<lambda>a. type a = ''square'') (chartAspects chartData);
                     oppositions = filter (\<lambda>a. type a = ''opposition'') (chartAspects chartData)
                 in Inr (foldl (considerOpposition squares) patterns oppositions)))"

section \<open>Notions used in the statements and proofs\<close>

text \<open>
  A chart with the ten planets of the registry at given longitudes, for the examples: its
  aspects are those that \<open>calculateAspects\<close> computes, its houses the equal houses from 0.
\<close>

definition positionAt :: "planetInfo \<Rightarrow> real \<Rightarrow> planetPosition" where
  "positionAt info l =
    \<lparr>name = name info, orbSpeed = orbSpeed info, longitude = l, latitude = 0,
     sign = \<lfloor>l / 30\<rfloor>, degree = jsmod l 30, isRetrograde = False\<rparr>"

definition chartWith :: "real list \<Rightarrow> natalChart" where
  "chartWith ls =
    (let planetPositions = map (\<lambda>((planet, info), l). (planet, positionAt info l)) (zip planets ls)
     in \<lparr>chartPlanets = planetPositions, chartHouses = equalHouses 0,
         chartAspects = calculateAspects planetPositions,
         ascendant = 0, midheaven = 270, julianDay = 2451545\<rparr>)"

text \<open>Some aspect of the given type joins the two planets, stored in either order.\<close>

definition aspectBetween :: "natalChart \<Rightarrow> string \<Rightarrow> string \<Rightarrow> string \<Rightarrow> bool" where
  "aspectBetween ch t x y = list_ex (\<lambda>a. type a = t \<and> joins a x y) (chartAspects ch)"

text \<open>
  Every trine aspect of the chart joins two planets of the registry, and the chart has a
  position for each of them.
\<close>

definition trinesWellFormed :: "natalChart \<Rightarrow> bool" where
  "trinesWellFormed ch =
    (\<forall>a \<in> set (chartAspects ch). type a = ''trine'' \<longrightarrow>
       planet1 a \<in> set planetKeys \<and> planet2 a \<in> set planetKeys
       \<and> planet1 a \<in> fst ` set (chartPlanets ch) \<and> planet2 a \<in> fst ` set (chartPlanets ch))"

text \<open>Every planet of the chart has a longitude from 0 up to, not including, 360.\<close>

definition longitudesInRange :: "natalChart \<Rightarrow> bool" where
  "longitudesInRange ch =
    (\<forall>(planet, pos) \<in> set (chartPlanets ch). 0 \<le> longitude pos \<and> longitude pos < 360)"

text \<open>
  The element of each of the twelve signs, from Aries: the triplicities of astrology.
\<close>

definition signElements :: "string list" where
  "signElements =
    [''Fire'', ''Earth'', ''Air'', ''Water'', ''Fire'', ''Earth'', ''Air'', ''Water'',
     ''Fire'', ''Earth'', ''Air'', ''Water'']"

text \<open>
  What the three statements on \<open>trineGroups\<close> do to an object that owns the key or gets it:
  the steps of the loop \<open>forEachTrine\<close> where no exception is raised.
\<close>

definition ensureOwn :: "string \<Rightarrow> groups \<Rightarrow> groups" where
  "ensureOwn p g = (if map_of g p = None then g @ [(p, [])] else g)"

definition addMember :: "string \<Rightarrow> string \<Rightarrow> groups \<Rightarrow> groups" where
  "addMember p q g = map (\<lambda>(k, s). if k = p then (k, if q \<in> set s then s else s @ [q]) else (k, s)) g"

definition joinTrine :: "groups \<Rightarrow> aspect \<Rightarrow> groups" where
  "joinTrine g trine =
    (let p1 = planet1 trine; p2 = planet2 trine
     in addMember p2 p1 (addMember p1 p2 (ensureOwn p2 (ensureOwn p1 g))))"

text \<open>The members of a key of \<open>trineGroups\<close>, and what the search loops maintain.\<close>

definition members :: "groups \<Rightarrow> string \<Rightarrow> string set" where
  "members g k = (case map_of g k of None \<Rightarrow> {} | Some s \<Rightarrow> set s)"

definition closedGroups :: "groups \<Rightarrow> bool" where
  "closedGroups g = (distinct (map fst g) \<and> (\<forall>k. members g k \<subseteq> fst ` set g))"

definition trinePattern :: "(string \<times> planetPosition) list \<Rightarrow> groups \<Rightarrow> pattern \<Rightarrow> bool" where
  "trinePattern pls g p =
    (\<exists>p1 p2 p3 pos. p = GrandTrine (tripletKey p1 p2 p3) (getSignElement \<lfloor>longitude pos / 30\<rfloor>)
       \<and> map_of pls p1 = Some pos \<and> p1 \<in> fst ` set g \<and> p2 \<in> members g p1 \<and> p3 \<in> members g p1)"

definition trineInvariant :: "(string \<times> planetPosition) list \<Rightarrow> groups \<Rightarrow> pattern list \<Rightarrow> bool" where
  "trineInvariant pls g patterns =
    (distinct (map patternPlanets patterns) \<and> (\<forall>p \<in> set patterns. trinePattern pls g p))"

section \<open>Properties of the dignity lookup\<close>

lemma getPlanetDignity_total: "getPlanetDignity planet signIndex \<in> dignityCategories"
  by (simp add: getPlanetDignity_def dignityCategories_def split: option.splits)

text \<open>
  C8: for every planet of the ten-planet set and every sign index from 0 to 11,
  \<open>getPlanetDignity\<close> returns one of the five categories Rulership, Exaltation, Detriment,
  Fall, Neutral (it is a total function, with no failing branch), and the planet's rulership
  signs and detriment signs are disjoint.
\<close>

theorem C8_dignity_total_disjoint:
  "\<forall>planet \<in> set planetKeys. \<forall>signIndex \<in> {0..11}.
     getPlanetDignity planet signIndex \<in> dignityCategories
     \<and> (\<exists>d. map_of dignities planet = Some d \<and> signSet (rulership d) \<inter> signSet (detriment d) = {})"
  by (simp add: getPlanetDignity_total) (simp add: planetKeys_def dignities_def)

theorem C8_witness:
  "''venus'' \<in> set planetKeys \<and> (0::int) \<in> {0..11}
   \<and> getPlanetDignity ''venus'' 0 = ''Detriment''
   \<and> getPlanetDignity ''venus'' 0 \<in> dignityCategories
   \<and> (\<exists>d. map_of dignities ''venus'' = Some d \<and> signSet (rulership d) \<inter> signSet (detriment d) = {})"
proof -
  have k: "''venus'' \<in> set planetKeys" by (simp add: planetKeys_def)
  have s: "(0::int) \<in> {0..11}" by simp
  have v: "getPlanetDignity ''venus'' 0 = ''Detriment''"
    by (simp add: getPlanetDignity_def dignities_def)
  from C8_dignity_total_disjoint k s v show ?thesis by blast
qed

section \<open>Properties of the house placement\<close>

lemma houseLoop_range:
  "\<forall>i \<in> set is. i < 12 \<and> i < length houses \<and> (i + 1) mod 12 < length houses \<Longrightarrow>
   \<exists>n. houseLoop l houses is = Inr n \<and> 1 \<le> n \<and> n \<le> 12"
  by (induction "is") (auto simp: cuspAt_def)

lemma houseLoop_default:
  "\<forall>i \<in> set is. i < length houses \<and> (i + 1) mod 12 < length houses \<and> \<not> inArc l houses i \<Longrightarrow>
   houseLoop l houses is = Inr 1"
  by (induction "is") (auto simp: cuspAt_def inArc_def Let_def)

text \<open>
  C10: for every planet position and every list of 12 house cusps, \<open>determinePlanetHouse\<close>
  returns (it raises no error) a house number between 1 and 12; and when no house arc,
  taken with the wraparound at 0 degrees, contains the planet's longitude, it returns the
  default house 1.
\<close>

theorem C10_house_total:
  assumes "length houses = 12"
  shows "\<exists>n. determinePlanetHouse p houses = Inr n \<and> 1 \<le> n \<and> n \<le> 12
          \<and> ((\<forall>i < 12. \<not> inArc (longitude p) houses i) \<longrightarrow> n = 1)"
proof -
  from assms have "\<forall>i \<in> set [0..<12]. i < 12 \<and> i < length houses \<and> (i + 1) mod 12 < length houses"
    by simp
  from houseLoop_range [OF this, of "longitude p"] obtain n
    where n: "houseLoop (longitude p) houses [0..<12] = Inr n" "1 \<le> n" "n \<le> 12" by blast
  have "n = 1" if "\<forall>i < 12. \<not> inArc (longitude p) houses i"
  proof -
    from assms that
    have "\<forall>i \<in> set [0..<12]. i < length houses \<and> (i + 1) mod 12 < length houses
            \<and> \<not> inArc (longitude p) houses i"
      by simp
    from houseLoop_default [OF this] n show ?thesis by simp
  qed
  with n show ?thesis by (auto simp: determinePlanetHouse_def)
qed

theorem C10_witness:
  "length (replicate 12 \<lparr>number = 1, cusp = 0, system = ''Equal''\<rparr>) = 12
   \<and> list_all (\<lambda>i. \<not> inArc 45 (replicate 12 \<lparr>number = 1, cusp = 0, system = ''Equal''\<rparr>) i) [0..<12]
   \<and> determinePlanetHouse
        \<lparr>name = ''Sun'', orbSpeed = 1, longitude = 45, latitude = 0, sign = 1, degree = 15,
         isRetrograde = False\<rparr>
        (replicate 12 \<lparr>number = 1, cusp = 0, system = ''Equal''\<rparr>) = Inr 1"
proof -
  define hs where "hs = replicate 12 \<lparr>number = 1, cusp = 0 :: real, system = ''Equal''\<rparr>"
  define p where "p = \<lparr>name = ''Sun'', orbSpeed = 1, longitude = 45, latitude = 0, sign = 1,
      degree = 15, isRetrograde = False\<rparr>"
  have l: "length hs = 12" by (simp add: hs_def)
  have a: "\<forall>i<12. \<not> inArc (longitude p) hs i"
    by (simp add: inArc_def hs_def p_def)
  from C10_house_total [OF l, of p] a have "determinePlanetHouse p hs = Inr 1" by auto
  moreover from a have "list_all (\<lambda>i. \<not> inArc 45 hs i) [0..<12]"
    by (simp add: list_all_iff p_def)
  ultimately show ?thesis using l by (simp only: hs_def p_def simp_thms)
qed

section \<open>Properties of the remainder\<close>

lemma jsmod_nonneg:
  assumes "0 \<le> x" "0 < y"
  shows "0 \<le> jsmod x y \<and> jsmod x y < y"
proof -
  from assms have q: "0 \<le> x / y" by simp
  have 1: "of_int \<lfloor>x / y\<rfloor> \<le> x / y" by simp
  have 2: "x / y < of_int \<lfloor>x / y\<rfloor> + 1" by linarith
  have e: "y * (x / y) = x" using assms by simp
  from 1 assms have "y * of_int \<lfloor>x / y\<rfloor> \<le> y * (x / y)"
    by (intro mult_left_mono) simp_all
  with e have a: "y * of_int \<lfloor>x / y\<rfloor> \<le> x" by simp
  from 2 assms have "y * (x / y) < y * (of_int \<lfloor>x / y\<rfloor> + 1)"
    by (intro mult_strict_left_mono) simp_all
  with e have b: "x < y * (of_int \<lfloor>x / y\<rfloor> + 1)" by simp
  from a b q show ?thesis by (simp add: jsmod_def trunc_def algebra_simps)
qed

lemma jsmod_neg:
  assumes "x < 0" "0 < y"
  shows "- y < jsmod x y \<and> jsmod x y \<le> 0"
proof -
  from assms have q: "\<not> 0 \<le> x / y" by (simp add: divide_less_0_iff not_le)
  have 1: "x / y \<le> of_int \<lceil>x / y\<rceil>" by simp
  have 2: "of_int \<lceil>x / y\<rceil> - 1 < x / y" by linarith
  have e: "y * (x / y) = x" using assms by simp
  from 1 assms have "y * (x / y) \<le> y * of_int \<lceil>x / y\<rceil>"
    by (intro mult_left_mono) simp_all
  with e have a: "x \<le> y * of_int \<lceil>x / y\<rceil>" by simp
  from 2 assms have "y * (of_int \<lceil>x / y\<rceil> - 1) < y * (x / y)"
    by (intro mult_strict_left_mono) simp_all
  with e have b: "y * (of_int \<lceil>x / y\<rceil> - 1) < x" by simp
  from a b q show ?thesis by (simp add: jsmod_def trunc_def algebra_simps)
qed

lemma jsmod_id:
  assumes "0 \<le> x" "x < y"
  shows "jsmod x y = x"
proof -
  from assms have "0 \<le> x / y" "x / y < 1" by simp_all
  then have "\<lfloor>x / y\<rfloor> = 0" by linarith
  with \<open>0 \<le> x / y\<close> show ?thesis by (simp add: jsmod_def trunc_def)
qed

lemma jsmod_shift: "\<exists>k::int. jsmod x y = x - y * of_int k"
  by (auto simp: jsmod_def)

lemma jsmod_zero: "jsmod 0 y = 0"
  by (simp add: jsmod_def trunc_def)

section \<open>Properties of the house cusps\<close>

lemma atanQuotient_range:
  assumes "atanQuotient n d z = Some a"
  shows "- (pi / 2) \<le> a \<and> a \<le> pi / 2"
proof -
  have "- (pi / 2) < arctan (n / d)" "arctan (n / d) < pi / 2"
    by (rule arctan_lbound, rule arctan_ubound)
  moreover have "- (pi / 2) \<le> pi / 2" using pi_gt_zero by simp
  moreover from assms have "a = arctan (n / d) \<or> a = - (pi / 2) \<or> a = pi / 2"
    by (auto simp: atanQuotient_def split: if_splits)
  ultimately show ?thesis by auto
qed

lemma calculateAscendant_range:
  assumes "calculateAscendant jd lat lon = Some asc"
  shows "0 \<le> asc \<and> asc < 360"
proof -
  from assms obtain t where
    t: "atanQuotient (- cos (calculateLocalSiderealTime jd lon * pi / 180))
          (sin (calculateLocalSiderealTime jd lon * pi / 180) * cos (lat * pi / 180)
            - tan 0 * sin (lat * pi / 180))
          (negativeZeroDivisor jd lat lon) = Some t"
    and "asc = jsmod ((if cos (calculateLocalSiderealTime jd lon * pi / 180) > 0
                       then t * 180 / pi + 180 else t * 180 / pi) + 360) 360"
    by (auto simp: calculateAscendant_def Let_def split: option.splits)
  define a where "a = t * 180 / pi"
  from atanQuotient_range [OF t] have r: "- 90 \<le> a" "a \<le> 90"
    by (simp_all add: a_def field_simps)
  from \<open>asc = _\<close> have "asc = jsmod (a + 180 + 360) 360 \<or> asc = jsmod (a + 360) 360"
    by (auto simp: a_def split: if_splits)
  moreover have "0 \<le> jsmod (a + 180 + 360) 360 \<and> jsmod (a + 180 + 360) 360 < 360"
    using r by (intro jsmod_nonneg) simp_all
  moreover have "0 \<le> jsmod (a + 360) 360 \<and> jsmod (a + 360) 360 < 360"
    using r by (intro jsmod_nonneg) simp_all
  ultimately show ?thesis by auto
qed

lemma calculateAscendant_defined:
  "ascendantDivisor jd lat lon \<noteq> 0 \<Longrightarrow> \<exists>asc. calculateAscendant jd lat lon = Some asc"
  by (simp add: calculateAscendant_def ascendantDivisor_def atanQuotient_def Let_def)

lemma equalLoop_length: "length (equalLoop add asc) = 12"
  by (simp add: equalLoop_def)

lemma equalLoop_nth:
  "i < 12 \<Longrightarrow> equalLoop add asc ! i
     = \<lparr>number = i + 1, cusp = jsmod (add asc (real i * 30)) 360, system = ''Equal''\<rparr>"
  by (simp add: equalLoop_def del: upt_Suc)

lemma equalHouses_length: "length (equalHouses asc) = 12"
  by (simp add: equalHouses_def equalLoop_length)

lemma equalHouses_nth:
  "i < 12 \<Longrightarrow> equalHouses asc ! i = \<lparr>number = i + 1, cusp = jsmod (asc + real i * 30) 360, system = ''Equal''\<rparr>"
  by (simp add: equalHouses_def equalLoop_nth)

lemma jsmod_step:
  assumes "0 \<le> x"
  shows "jsmod (x + 30) 360 - jsmod x 360 = 30 \<or> jsmod (x + 30) 360 - jsmod x 360 = 30 - 360"
proof -
  obtain k :: int where k: "jsmod x 360 = x - 360 * of_int k" using jsmod_shift by blast
  obtain l :: int where l: "jsmod (x + 30) 360 = x + 30 - 360 * of_int l" using jsmod_shift by blast
  have a: "0 \<le> jsmod x 360 \<and> jsmod x 360 < 360" using assms by (intro jsmod_nonneg) simp_all
  have b: "0 \<le> jsmod (x + 30) 360 \<and> jsmod (x + 30) 360 < 360" using assms by (intro jsmod_nonneg) simp_all
  have d: "jsmod (x + 30) 360 - jsmod x 360 = 30 - 360 * of_int (l - k)"
    by (simp add: k l algebra_simps)
  from a b d have "- 360 < 30 - 360 * real_of_int (l - k)" "30 - 360 * real_of_int (l - k) < 360"
    by linarith+
  then have "real_of_int (- 1) < real_of_int (l - k)" "real_of_int (l - k) < real_of_int 2"
    by simp_all
  then have "- 1 < l - k" "l - k < 2" by (simp_all only: of_int_less_iff)
  then have "l - k = 0 \<or> l - k = 1" by linarith
  with d show ?thesis by auto
qed

lemma jsmod_wrap:
  assumes "360 \<le> x" "x < 720"
  shows "jsmod x 360 = x - 360"
proof -
  from assms have "1 \<le> x / 360" "x / 360 < 2" by simp_all
  then have "\<lfloor>x / 360\<rfloor> = 1" by linarith
  with \<open>1 \<le> x / 360\<close> show ?thesis by (simp add: jsmod_def trunc_def)
qed

lemma equalHouses_first:
  assumes "0 \<le> asc" "asc < 360"
  shows "cusp (equalHouses asc ! 0) = asc"
  using assms by (simp add: equalHouses_nth jsmod_id)

lemma equalHouses_consecutive:
  assumes "0 \<le> asc" "asc < 360" "i < 12"
  shows "cusp (equalHouses asc ! ((i + 1) mod 12)) - cusp (equalHouses asc ! i) = 30
       \<or> cusp (equalHouses asc ! ((i + 1) mod 12)) - cusp (equalHouses asc ! i) = 30 - 360"
proof (cases "i = 11")
  case True
  have "asc + 330 + 30 = asc + 360" by simp
  moreover have "jsmod (asc + 360) 360 = asc"
    using assms jsmod_wrap [of "asc + 360"] by simp
  ultimately have w: "jsmod (asc + 330 + 30) 360 = asc" by (simp only:)
  from jsmod_step [of "asc + 330"] assms w True show ?thesis
    by (simp add: equalHouses_nth jsmod_id)
next
  case False
  with assms have i: "i + 1 < 12" "(i + 1) mod 12 = i + 1" by simp_all
  have "asc + real (i + 1) * 30 = asc + real i * 30 + 30" by (simp add: algebra_simps)
  then have a: "cusp (equalHouses asc ! (i + 1)) = jsmod (asc + real i * 30 + 30) 360"
    using i(1) by (simp only: equalHouses_nth houseCusp.simps)
  have b: "cusp (equalHouses asc ! i) = jsmod (asc + real i * 30) 360"
    using assms by (simp only: equalHouses_nth houseCusp.simps)
  have "0 \<le> asc + real i * 30" using assms by simp
  from jsmod_step [OF this] show ?thesis by (simp only: i(2) a b)
qed

lemma placidusHouses_length: "length (placidusHouses asc mc lat) = 12"
  by (simp add: placidusHouses_def Let_def)

lemma placidusHouses_first:
  "placidusHouses asc mc lat ! 0 = \<lparr>number = 1, cusp = asc, system = ''Placidus''\<rparr>"
  by (simp add: placidusHouses_def Let_def)

lemma placidusHouses_tenth:
  "placidusHouses asc mc lat ! 9 = \<lparr>number = 10, cusp = mc, system = ''Placidus''\<rparr>"
  by (simp add: placidusHouses_def Let_def)

lemma lmst_epoch:
  "0 \<le> 280.46061837 + lon \<Longrightarrow> 280.46061837 + lon < 360 \<Longrightarrow>
   calculateLocalSiderealTime 2451545 lon = 280.46061837 + lon"
  by (simp add: calculateLocalSiderealTime_def Let_def jsmod_id)

lemma lmst_scenario: "calculateLocalSiderealTime 2451545 (- 74.0060) = 206.45461837"
  by (simp add: lmst_epoch)

lemma ascendantDivisor_at:
  "calculateLocalSiderealTime jd lon = L \<Longrightarrow>
   ascendantDivisor jd lat lon = sin (L * pi / 180) * cos (lat * pi / 180)"
  by (simp add: ascendantDivisor_def Let_def)

lemma calculateAscendant_at:
  assumes "calculateLocalSiderealTime jd lon = L"
    and "sin (L * pi / 180) * cos (lat * pi / 180) = d" and "d \<noteq> 0"
    and "- cos (L * pi / 180) / d = t"
  shows "calculateAscendant jd lat lon =
    Some (jsmod ((if cos (L * pi / 180) > 0 then arctan t * 180 / pi + 180 else arctan t * 180 / pi) + 360) 360)"
proof -
  have e: "sin (L * pi / 180) * cos (lat * pi / 180) - tan 0 * sin (lat * pi / 180) = d"
    using assms(2) by simp
  show ?thesis
    unfolding calculateAscendant_def atanQuotient_def Let_def assms(1) e using assms(3,4) by simp
qed

text \<open>
  At the sidereal time 0 the divisor is zero. The quotient is the negative infinity and
  the ascendant 90, unless the zero is negative: then it is 270. The longitude
  -280.46061837 at the epoch is such an input.
\<close>

lemma lmst_zero: "calculateLocalSiderealTime 2451545 (- 280.46061837) = 0"
  by (simp add: calculateLocalSiderealTime_def Let_def jsmod_zero)

lemma ascendant_at_zero:
  assumes l: "calculateLocalSiderealTime jd lon = 0" and n: "\<not> negativeLMST jd lon"
    and c: "0 < cos (lat * pi / 180)"
  shows "calculateAscendant jd lat lon = Some 90"
proof -
  have z: "\<not> negativeZeroDivisor jd lat lon"
    using c n by (simp add: negativeZeroDivisor_def Let_def l)
  have q: "atanQuotient (- cos (0 * pi / 180))
      (sin (0 * pi / 180) * cos (lat * pi / 180) - tan 0 * sin (lat * pi / 180))
      (negativeZeroDivisor jd lat lon) = Some (- (pi / 2))"
    using z by (simp add: atanQuotient_def)
  have j: "jsmod 450 360 = 450 - 360" by (rule jsmod_wrap) simp_all
  show ?thesis
    unfolding calculateAscendant_def Let_def l q using j by simp
qed

lemma ascendant_at_negative_zero:
  assumes l: "calculateLocalSiderealTime jd lon = 0" and n: "negativeLMST jd lon"
    and c: "0 < cos (lat * pi / 180)" and s: "0 < sin (lat * pi / 180)"
  shows "calculateAscendant jd lat lon = Some 270"
proof -
  have z: "negativeZeroDivisor jd lat lon"
    using c s n by (simp add: negativeZeroDivisor_def Let_def l)
  have q: "atanQuotient (- cos (0 * pi / 180))
      (sin (0 * pi / 180) * cos (lat * pi / 180) - tan 0 * sin (lat * pi / 180))
      (negativeZeroDivisor jd lat lon) = Some (pi / 2)"
    using z by (simp add: atanQuotient_def)
  have j: "jsmod 630 360 = 630 - 360" by (rule jsmod_wrap) simp_all
  show ?thesis
    unfolding calculateAscendant_def Let_def l q using j by simp
qed

lemma ascendant_zero_divisor:
  assumes "0 < cos (lat * pi / 180)"
  shows "calculateAscendant 2451545 lat (- 280.46061837) = Some 90"
proof -
  have n: "\<not> negativeLMST 2451545 (- 280.46061837)" by (simp add: negativeLMST_def)
  from ascendant_at_zero [OF lmst_zero n assms] show ?thesis .
qed

lemma divisor_scenario: "ascendantDivisor 2451545 40.7128 (- 74.0060) < 0"
proof -
  have "pi < 206.45461837 * pi / 180" "206.45461837 * pi / 180 < 2 * pi" by simp_all
  then have s: "sin (206.45461837 * pi / 180) < 0" by (rule sin_lt_zero)
  have "0 < 40.7128 * pi / 180" "40.7128 * pi / 180 < pi / 2" by simp_all
  then have c: "0 < cos (40.7128 * pi / 180)" by (rule cos_gt_zero)
  from s c have "sin (206.45461837 * pi / 180) * cos (40.7128 * pi / 180) < 0"
    by (rule mult_neg_pos)
  then show ?thesis by (simp only: ascendantDivisor_at [OF lmst_scenario])
qed

text \<open>
  At a pole the divisor is zero for every sidereal time. With the sidereal time in the
  third quadrant, as at the epoch at the longitude -74.0060, the ascendant is 270.
\<close>

lemma ascendant_at_pole:
  assumes l: "calculateLocalSiderealTime jd lon = L" and r: "180 < L" "L < 270"
  shows "calculateAscendant jd 90 lon = Some 270"
proof -
  define x where "x = L * pi / 180"
  have x: "pi < x" "x < 3 * pi / 2" using r by (simp_all add: x_def field_simps)
  then have "pi < x" "x < 2 * pi" by simp_all
  then have s: "sin x < 0" by (rule sin_lt_zero)
  have "0 < cos (x - pi)" using x by (intro cos_gt_zero) simp_all
  then have c: "cos x < 0" by simp
  have p: "cos (90 * pi / 180) = 0" "sin (90 * pi / 180) = 1" by simp_all
  have n: "L \<noteq> 0" using r by simp
  have z: "negativeZeroDivisor jd 90 lon"
    using s n by (simp add: negativeZeroDivisor_def Let_def l x_def [symmetric] p)
  have q: "atanQuotient (- cos x) (sin x * cos (90 * pi / 180) - tan 0 * sin (90 * pi / 180))
      (negativeZeroDivisor jd 90 lon) = Some (- (pi / 2))"
    using z c by (simp add: atanQuotient_def p)
  have j: "jsmod 270 360 = 270" by (rule jsmod_id) simp_all
  show ?thesis
    unfolding calculateAscendant_def Let_def l x_def [symmetric] q using c j by simp
qed

lemma ascendant_pole_scenario: "calculateAscendant 2451545 90 (- 74.0060) = Some 270"
  by (rule ascendant_at_pole [OF lmst_scenario]) simp_all

lemma lmst_45: "calculateLocalSiderealTime 2451545 124.53938163 = 45"
proof -
  have "jsmod 405 360 = 405 - 360" by (rule jsmod_wrap) simp_all
  then show ?thesis by (simp add: calculateLocalSiderealTime_def Let_def)
qed

lemma ascendant_45_60:
  "calculateAscendant 2451545 60 124.53938163 = Some (arctan (- 2) * 180 / pi + 180)"
proof -
  have r: "(45::real) * pi / 180 = pi / 4" "(60::real) * pi / 180 = pi / 3" by simp_all
  have d: "sin (45 * pi / 180) * cos (60 * pi / 180) = sqrt 2 / 4"
    by (simp only: r) (simp add: sin_45 cos_60)
  have n: "sqrt 2 / 4 \<noteq> 0" by simp
  have t: "- cos (45 * pi / 180) / (sqrt 2 / 4) = - 2" by (simp only: r) (simp add: cos_45)
  have c: "cos (45 * pi / 180) > 0" by (simp only: r) (simp add: cos_45)
  have "- (pi / 2) < arctan (- 2)" by (rule arctan_lbound)
  moreover have "arctan (- 2) < 0" by (simp add: arctan_less_zero_iff)
  ultimately have a: "- 90 < arctan (- 2) * 180 / pi" "arctan (- 2) * 180 / pi < 0"
    by (simp_all add: field_simps)
  then have "jsmod (arctan (- 2) * 180 / pi + 180 + 360) 360 = arctan (- 2) * 180 / pi + 180 + 360 - 360"
    by (intro jsmod_wrap) simp_all
  then have j: "jsmod (arctan (- 2) * 180 / pi + 180 + 360) 360 = arctan (- 2) * 180 / pi + 180"
    by simp
  from calculateAscendant_at [OF lmst_45 d n t] c j show ?thesis by (simp only: if_True)
qed

lemma arctan_2_not_45: "arctan (- 2) * 180 / pi \<noteq> - 45"
proof
  assume "arctan (- 2) * 180 / pi = - 45"
  then have "arctan (- 2) = - (pi / 4)" by (simp add: field_simps)
  also have "\<dots> = arctan (- 1)" by (simp add: arctan_minus arctan_one)
  finally have "(- 2 :: real) = - 1" by (simp only: arctan_eq_iff)
  then show False by simp
qed

subsection \<open>The equal houses in doubles\<close>































subsection \<open>The angles of the chart\<close>

text \<open>
  C4, as the program has it: for every input at which the ascendant formula has a nonzero
  divisor and for every house system, the cusp of house 1 is the computed ascendant, and
  the chart's \<open>ascendant\<close> and \<open>midheaven\<close> are the cusps of houses 1 and 10. The cusp of
  house 10 is the midheaven \<open>LMST % 360\<close> for every system but \<open>equal\<close>; for \<open>equal\<close> it is
  \<open>(ascendant + 270) % 360\<close>.
\<close>

theorem C4_angles:
  assumes "ascendantDivisor jd lat lon \<noteq> 0"
  shows "\<exists>asc hs. calculateAscendant jd lat lon = Some asc
           \<and> calculateHouses jd lat lon sys = Some hs
           \<and> number (hs ! 0) = 1 \<and> cusp (hs ! 0) = asc
           \<and> number (hs ! 9) = 10
           \<and> cusp (hs ! 9) =
               (if sys = ''equal'' then jsmod (asc + 270) 360
                else calculateMidheaven (calculateLocalSiderealTime jd lon))
           \<and> (\<forall>tz random date. calculateJulianDay date = jd \<longrightarrow>
                 (\<exists>ch. calculateNatalChart tz random date lat lon sys = Some ch
                    \<and> chartHouses ch = hs \<and> ascendant ch = cusp (hs ! 0)
                    \<and> midheaven ch = cusp (hs ! 9)))"
proof -
  from calculateAscendant_defined [OF assms] obtain asc
    where asc: "calculateAscendant jd lat lon = Some asc" by blast
  from calculateAscendant_range [OF asc] have r: "0 \<le> asc" "asc < 360" by simp_all
  define hs where "hs = (if sys = ''equal'' then equalHouses asc
      else placidusHouses asc (calculateMidheaven (calculateLocalSiderealTime jd lon)) lat)"
  have h: "calculateHouses jd lat lon sys = Some hs"
    by (simp add: calculateHouses_def asc hs_def Let_def)
  have 1: "number (hs ! 0) = 1 \<and> cusp (hs ! 0) = asc"
    using r by (simp add: hs_def equalHouses_nth jsmod_id placidusHouses_first)
  have 2: "number (hs ! 9) = 10"
    by (simp add: hs_def equalHouses_nth placidusHouses_tenth)
  have 3: "cusp (hs ! 9) = (if sys = ''equal'' then jsmod (asc + 270) 360
                else calculateMidheaven (calculateLocalSiderealTime jd lon))"
    by (simp add: hs_def equalHouses_nth placidusHouses_tenth)
  have 4: "\<exists>ch. calculateNatalChart tz random date lat lon sys = Some ch
              \<and> chartHouses ch = hs \<and> ascendant ch = cusp (hs ! 0) \<and> midheaven ch = cusp (hs ! 9)"
    if "calculateJulianDay date = jd" for tz random date
    using that h by (simp add: calculateNatalChart_def Let_def)
  from asc h 1 2 3 4 show ?thesis by blast
qed

lemma julianDay_epoch: "calculateJulianDay (localDate 2000 1 1 12 0) = 2451545"
  by (simp add: calculateJulianDay_def localDate_def Let_def)

theorem C4_witness:
  "ascendantDivisor 2451545 40.7128 (- 74.0060) \<noteq> 0
   \<and> (\<exists>asc hs. calculateAscendant 2451545 40.7128 (- 74.0060) = Some asc
           \<and> calculateHouses 2451545 40.7128 (- 74.0060) ''placidus'' = Some hs
           \<and> number (hs ! 0) = 1 \<and> cusp (hs ! 0) = asc
           \<and> number (hs ! 9) = 10
           \<and> cusp (hs ! 9) = calculateMidheaven (calculateLocalSiderealTime 2451545 (- 74.0060))
           \<and> (\<exists>ch. calculateNatalChart 0 (\<lambda>planet. 0) (localDate 2000 1 1 12 0) 40.7128 (- 74.0060) ''placidus''
                     = Some ch
                    \<and> chartHouses ch = hs \<and> ascendant ch = cusp (hs ! 0)
                    \<and> midheaven ch = cusp (hs ! 9)))"
proof -
  have d: "ascendantDivisor 2451545 40.7128 (- 74.0060) \<noteq> 0"
    using divisor_scenario by simp
  have p: "''placidus'' \<noteq> ''equal''" by simp
  from C4_angles [OF d, of "''placidus''"] obtain asc hs where
    a: "calculateAscendant 2451545 40.7128 (- 74.0060) = Some asc"
       "calculateHouses 2451545 40.7128 (- 74.0060) ''placidus'' = Some hs"
       "number (hs ! 0) = 1" "cusp (hs ! 0) = asc" "number (hs ! 9) = 10"
       "cusp (hs ! 9) = (if ''placidus'' = ''equal'' then jsmod (asc + 270) 360
                else calculateMidheaven (calculateLocalSiderealTime 2451545 (- 74.0060)))"
    and c: "\<forall>tz random date. calculateJulianDay date = 2451545 \<longrightarrow>
                 (\<exists>ch. calculateNatalChart tz random date 40.7128 (- 74.0060) ''placidus'' = Some ch
                    \<and> chartHouses ch = hs \<and> ascendant ch = cusp (hs ! 0)
                    \<and> midheaven ch = cusp (hs ! 9))"
    by blast
  from a(6) p have m: "cusp (hs ! 9) = calculateMidheaven (calculateLocalSiderealTime 2451545 (- 74.0060))"
    by (simp only: if_False)
  from c julianDay_epoch
  have "\<exists>ch. calculateNatalChart 0 (\<lambda>planet. 0) (localDate 2000 1 1 12 0) 40.7128 (- 74.0060) ''placidus''
                = Some ch
              \<and> chartHouses ch = hs \<and> ascendant ch = cusp (hs ! 0) \<and> midheaven ch = cusp (hs ! 9)"
    by blast
  with d a(1-5) m show ?thesis by blast
qed

theorem C4_counterexample:
  "\<exists>ch. calculateNatalChart 0 (\<lambda>planet. 0) (localDate 2000 1 1 12 0) 60 124.53938163 ''equal'' = Some ch
        \<and> calculateHouses 2451545 60 124.53938163 ''equal'' = Some (chartHouses ch)
        \<and> number (chartHouses ch ! 9) = 10
        \<and> cusp (chartHouses ch ! 9) \<noteq> calculateMidheaven (calculateLocalSiderealTime 2451545 124.53938163)
        \<and> midheaven ch \<noteq> calculateMidheaven (calculateLocalSiderealTime 2451545 124.53938163)"
proof -
  define a where "a = arctan (- 2) * 180 / pi"
  have "- (pi / 2) < arctan (- 2)" by (rule arctan_lbound)
  moreover have "arctan (- 2) < 0" by (simp add: arctan_less_zero_iff)
  ultimately have r: "- 90 < a" "a < 0" by (simp_all add: a_def field_simps)
  have asc: "calculateAscendant 2451545 60 124.53938163 = Some (a + 180)"
    using ascendant_45_60 by (simp only: a_def)
  have hs: "calculateHouses 2451545 60 124.53938163 ''equal'' = Some (equalHouses (a + 180))"
    by (simp only: calculateHouses_def Let_def asc option.case simp_thms if_True)
  have "jsmod (a + 180 + 270) 360 = a + 180 + 270 - 360"
    using r by (intro jsmod_wrap) simp_all
  then have c: "cusp (equalHouses (a + 180) ! 9) = a + 90"
    by (simp add: equalHouses_nth)
  have m: "calculateMidheaven (calculateLocalSiderealTime 2451545 124.53938163) = 45"
    by (simp only: lmst_45 calculateMidheaven_def) (simp add: jsmod_id)
  have ne: "a + 90 \<noteq> 45" using arctan_2_not_45 by (simp add: a_def)
  have ch: "calculateNatalChart 0 (\<lambda>planet. 0) (localDate 2000 1 1 12 0) 60 124.53938163 ''equal''
      = Some \<lparr>chartPlanets = calculatePlanetaryPositions 0 (\<lambda>planet. 0) 2451545 60 124.53938163,
              chartHouses = equalHouses (a + 180),
              chartAspects = calculateAspects (calculatePlanetaryPositions 0 (\<lambda>planet. 0) 2451545 60 124.53938163),
              ascendant = cusp (equalHouses (a + 180) ! 0), midheaven = cusp (equalHouses (a + 180) ! 9),
              julianDay = 2451545\<rparr>"
    by (simp only: calculateNatalChart_def Let_def julianDay_epoch hs option.case)
  have n: "number (equalHouses (a + 180) ! 9) = 10" by (simp add: equalHouses_nth)
  have ne1: "cusp (equalHouses (a + 180) ! 9)
      \<noteq> calculateMidheaven (calculateLocalSiderealTime 2451545 124.53938163)"
    by (simp only: c m ne not_False_eq_True)
  show ?thesis
    by (rule exI, rule conjI [OF ch]) (simp only: natalChart.select_convs hs n ne1 simp_thms)
qed

section \<open>Properties of the Julian Day\<close>

lemma floor_quarter_days: "\<lfloor>365.25 * (of_int n :: real)\<rfloor> = (1461 * n) div 4"
proof -
  have "365.25 * (of_int n :: real) = of_int (1461 * n) / of_int 4" by simp
  then show ?thesis by (simp only: floor_divide_of_int_eq)
qed

lemma floor_month_days: "\<lfloor>30.6001 * (of_int n :: real)\<rfloor> = (306001 * n) div 10000"
proof -
  have "30.6001 * (of_int n :: real) = of_int (306001 * n) / of_int 10000" by simp
  then show ?thesis by (simp only: floor_divide_of_int_eq)
qed

lemma floor_div_100: "\<lfloor>(of_int n :: real) / 100\<rfloor> = n div 100"
  using floor_divide_of_int_eq [of n 100, where ?'a = real] by simp

lemma floor_div_4: "\<lfloor>(of_int n :: real) / 4\<rfloor> = n div 4"
  using floor_divide_of_int_eq [of n 4, where ?'a = real] by simp

lemma calculateJulianDay_split:
  "calculateJulianDay d =
     of_int (dayNumber (getFullYear d) (getMonth d + 1) (getDate d))
     + of_int (secondOfDay d) / 86400 - 1524.5"
  unfolding calculateJulianDay_def dayNumber_def Let_def
    floor_quarter_days floor_month_days floor_div_100 floor_div_4 secondOfDay_def
  by simp

lemma dayNumber_day: "dayNumber y m d = dayNumber y m 0 + d"
  by (simp add: dayNumber_def Let_def)

lemma month_of_index:
  assumes "0 \<le> r" "r < 12"
  shows "(12 * y + r) div 12 = (y::int)" "(12 * y + r) mod 12 = r"
  using assms by auto

lemma quarter_days: "(1461 * n) div 4 = 365 * n + n div 4" for n :: int
proof -
  have "1461 * n = n + 4 * (365 * n)" by simp
  then have "(1461 * n) div 4 = (n + 4 * (365 * n)) div 4" by simp
  also have "\<dots> = 365 * n + n div 4" by simp
  finally show ?thesis .
qed

lemma div_step:
  fixes n c :: int
  assumes "0 < c"
  shows "n div c = (n - 1) div c + (if n mod c = 0 then 1 else 0)"
proof (cases "n mod c = 0")
  case True
  then have n: "n = c * (n div c)" by auto
  have "n - 1 = c * (n div c - 1) + (c - 1)" using n by (simp add: algebra_simps)
  then have "(n - 1) div c = n div c - 1"
    using assms by (intro int_div_pos_eq [where r = "c - 1"]) simp_all
  with True show ?thesis by simp
next
  case False
  have r: "0 \<le> n mod c" "n mod c < c" using assms by simp_all
  with False have r1: "0 \<le> n mod c - 1" "n mod c - 1 < c" by simp_all
  have "n - 1 = c * (n div c) + (n mod c - 1)" by simp
  then have "(n - 1) div c = n div c"
    using r1 by (intro int_div_pos_eq [where r = "n mod c - 1"]) simp_all
  with False show ?thesis by simp
qed

lemma div_100_4: "(n div 100) div 4 = n div 400" for n :: int
  by (simp add: div_mult2_eq [symmetric])

lemma leap_step:
  fixes y :: int
  shows "yearTerm y = yearTerm (y - 1) + (if leapYear y then 366 else 365)"
proof -
  have m: "(y + 4716) mod 4 = y mod 4"
  proof -
    have "(y + 4716) mod 4 = (y + 4 * 1179) mod 4" by simp
    also have "\<dots> = y mod 4" by (simp only: mod_mult_self2)
    finally show ?thesis .
  qed
  have a: "(y + 4716) div 4 = (y - 1 + 4716) div 4 + (if y mod 4 = 0 then 1 else 0)"
  proof -
    have "y + 4716 - 1 = y - 1 + 4716" by simp
    with div_step [of 4 "y + 4716"] show ?thesis by (simp only: m)
  qed
  have b: "y div 100 = (y - 1) div 100 + (if y mod 100 = 0 then 1 else 0)"
    using div_step [of 100 y] by simp
  have c: "y div 400 = (y - 1) div 400 + (if y mod 400 = 0 then 1 else 0)"
    using div_step [of 400 y] by simp
  have d1: "y mod 100 = 0" if "y mod 400 = 0"
  proof -
    have "y mod 400 mod 100 = y mod 100" by (rule mod_mod_cancel) simp
    with that show ?thesis by simp
  qed
  have d2: "y mod 4 = 0" if "y mod 100 = 0"
  proof -
    have "y mod 100 mod 4 = y mod 4" by (rule mod_mod_cancel) simp
    with that show ?thesis by simp
  qed
  have e: "(1461 * (y + 4716)) div 4 - y div 100 + (y div 100) div 4
      = 365 * (y + 4716) + (y + 4716) div 4 - y div 100 + y div 400"
    by (simp only: quarter_days div_100_4)
  have f: "(1461 * (y - 1 + 4716)) div 4 - (y - 1) div 100 + ((y - 1) div 100) div 4
      = 365 * (y - 1 + 4716) + (y - 1 + 4716) div 4 - (y - 1) div 100 + (y - 1) div 400"
    by (simp only: quarter_days div_100_4)
  define i4 :: int where "i4 = (if y mod 4 = 0 then 1 else 0)"
  define i100 :: int where "i100 = (if y mod 100 = 0 then 1 else 0)"
  define i400 :: int where "i400 = (if y mod 400 = 0 then 1 else 0)"
  note a' = a [folded i4_def] and b' = b [folded i100_def] and c' = c [folded i400_def]
  have g: "365 * (y + 4716) + (y + 4716) div 4 - y div 100 + y div 400
      = 365 * (y - 1 + 4716) + (y - 1 + 4716) div 4 - (y - 1) div 100 + (y - 1) div 400
        + (365 + i4 - i100 + i400)"
  proof -
    have "365 * (y + 4716) + A - B + C = 365 * (y - 1 + 4716) + A' - B' + C' + (365 + i4 - i100 + i400)"
      if "A = A' + i4" "B = B' + i100" "C = C' + i400" for A A' B B' C C' :: int
      using that by simp
    from this [OF a' b' c'] show ?thesis .
  qed
  have l: "(if leapYear y then 366 else 365) = 365 + i4 - i100 + i400"
  proof -
    have "(if P4 \<and> (\<not> P100 \<or> P400) then 366 else 365)
        = 365 + (if P4 then 1 else 0) - (if P100 then 1 else 0) + (if P400 then 1 else (0::int))"
      if "P400 \<Longrightarrow> P100" "P100 \<Longrightarrow> P4" for P4 P100 P400 :: bool
      using that by (cases P4; cases P100; cases P400) simp_all
    from this [of "y mod 400 = 0" "y mod 100 = 0" "y mod 4 = 0", OF d1 d2]
    show ?thesis unfolding leapYear_def i4_def i100_def i400_def .
  qed
  show ?thesis unfolding yearTerm_def by (simp only: e f g l)
qed

lemma monthStart_at: 
  assumes "0 \<le> r" "r < 12"
  shows "monthStart (12 * y + r) = dayNumber y (r + 1) 0"
  using assms by (simp add: monthStart_def month_of_index)

lemma monthLength_at: 
  assumes "0 \<le> r" "r < 12"
  shows "monthLength (12 * y + r) = daysInMonth y (r + 1)"
  using assms by (simp add: monthLength_def month_of_index)

lemma month_table:
  "(306001 * (3 + 1)) div 10000 = (122::int)" "(306001 * (4 + 1)) div 10000 = (153::int)"
  "(306001 * (5 + 1)) div 10000 = (183::int)" "(306001 * (6 + 1)) div 10000 = (214::int)"
  "(306001 * (7 + 1)) div 10000 = (244::int)" "(306001 * (8 + 1)) div 10000 = (275::int)"
  "(306001 * (9 + 1)) div 10000 = (306::int)" "(306001 * (10 + 1)) div 10000 = (336::int)"
  "(306001 * (11 + 1)) div 10000 = (367::int)" "(306001 * (12 + 1)) div 10000 = (397::int)"
  "(306001 * (13 + 1)) div 10000 = (428::int)" "(306001 * (14 + 1)) div 10000 = (459::int)"
  by simp_all

lemma dayNumber_late:
  "2 < m \<Longrightarrow> dayNumber y m 0 = yearTerm y + (306001 * (m + 1)) div 10000 + 2"
  by (simp add: dayNumber_def yearTerm_def Let_def)

lemma dayNumber_early:
  "m \<le> 2 \<Longrightarrow> dayNumber y m 0 = yearTerm (y - 1) + (306001 * (m + 12 + 1)) div 10000 + 2"
  by (simp add: dayNumber_def yearTerm_def Let_def)

lemma dayNumber_next_month:
  assumes "1 \<le> m" "m \<le> 11"
  shows "dayNumber y (m + 1) 0 = dayNumber y m 0 + daysInMonth y m"
proof -
  from assms have "m \<in> set [1..11]" by simp
  also have "[1..11] = [1, 2, 3, 4, 5, 6, 7, 8, 9, 10, 11 :: int]"
    by code_simp
  finally consider "m = 1" | "m = 2" | "m = 3" | "m = 4" | "m = 5" | "m = 6" | "m = 7"
    | "m = 8" | "m = 9" | "m = 10" | "m = 11" by auto
  then show ?thesis
  proof cases
    case 1
    then show ?thesis by (simp add: dayNumber_early daysInMonth_def)
  next
    case 2
    have "dayNumber y 3 0 = dayNumber y 2 0 + (if leapYear y then 29 else 28)"
      by (simp add: dayNumber_early dayNumber_late leap_step [of y])
    with 2 show ?thesis by (simp add: daysInMonth_def)
  qed (simp_all add: dayNumber_late daysInMonth_def)
qed

lemma dayNumber_next_year: "dayNumber (y + 1) 1 0 = dayNumber y 12 0 + daysInMonth y 12"
  by (simp add: dayNumber_early dayNumber_late daysInMonth_def)

lemma monthStart_step: "monthStart (k + 1) = monthStart k + monthLength k"
proof -
  define y where "y = k div 12"
  define r where "r = k mod 12"
  have k: "k = 12 * y + r" and r: "0 \<le> r" "r < 12" by (simp_all add: y_def r_def)
  have sk: "monthStart k = dayNumber y (r + 1) 0"
    unfolding k using r by (rule monthStart_at)
  have lk: "monthLength k = daysInMonth y (r + 1)"
    unfolding k using r by (rule monthLength_at)
  show ?thesis
  proof (cases "r = 11")
    case True
    have e1: "k + 1 = 12 * (y + 1) + 0" using k True by simp
    have "monthStart (12 * (y + 1) + 0) = dayNumber (y + 1) (0 + 1) 0"
      by (rule monthStart_at) simp_all
    then have "monthStart (k + 1) = dayNumber (y + 1) 1 0" unfolding e1 by simp
    also have "\<dots> = dayNumber y 12 0 + daysInMonth y 12" by (rule dayNumber_next_year)
    finally show ?thesis using True by (simp add: sk lk)
  next
    case False
    with r have r1: "0 \<le> r + 1" "r + 1 < 12" by simp_all
    have e1: "k + 1 = 12 * y + (r + 1)" using k by simp
    have "monthStart (k + 1) = dayNumber y (r + 1 + 1) 0"
      unfolding e1 using r1 by (rule monthStart_at)
    also have "\<dots> = dayNumber y (r + 1) 0 + daysInMonth y (r + 1)"
      using r False by (intro dayNumber_next_month) simp_all
    finally show ?thesis by (simp only: sk lk)
  qed
qed

lemma monthLength_pos: "0 \<le> monthLength k"
  by (simp add: monthLength_def daysInMonth_def)

lemma monthStart_later:
  assumes "k < k'"
  shows "monthStart k + monthLength k \<le> monthStart k'"
  using assms
proof (induction k' rule: int_gr_induct)
  case base
  show ?case by (simp add: monthStart_step)
next
  case (step i)
  have "monthStart (i + 1) = monthStart i + monthLength i" by (rule monthStart_step)
  with step.IH monthLength_pos [of i] show ?case by linarith
qed

lemma secondOfDay_range:
  assumes "validDate d"
  shows "0 \<le> secondOfDay d" "secondOfDay d < 86400"
  using assms by (simp_all add: validDate_def secondOfDay_def)

lemma dayNumber_earlier:
  assumes s: "validDate s" and t: "validDate t"
    and lt: "getFullYear s < getFullYear t
       \<or> (getFullYear s = getFullYear t \<and> getMonth s < getMonth t)"
  shows "dayNumber (getFullYear s) (getMonth s + 1) (getDate s)
       < dayNumber (getFullYear t) (getMonth t + 1) (getDate t)"
proof -
  define ks where "ks = 12 * getFullYear s + getMonth s"
  define kt where "kt = 12 * getFullYear t + getMonth t"
  have ms: "0 \<le> getMonth s" "getMonth s < 12" and mt: "0 \<le> getMonth t" "getMonth t < 12"
    using s t by (simp_all add: validDate_def)
  from lt ms mt have "ks < kt" unfolding ks_def kt_def by linarith
  then have m: "monthStart ks + monthLength ks \<le> monthStart kt" by (rule monthStart_later)
  have a: "monthStart ks = dayNumber (getFullYear s) (getMonth s + 1) 0"
    "monthLength ks = daysInMonth (getFullYear s) (getMonth s + 1)"
    unfolding ks_def using ms by (simp_all add: monthStart_at monthLength_at)
  have b: "monthStart kt = dayNumber (getFullYear t) (getMonth t + 1) 0"
    unfolding kt_def using mt by (simp add: monthStart_at)
  have ds: "getDate s \<le> daysInMonth (getFullYear s) (getMonth s + 1)"
    and dt: "1 \<le> getDate t" using s t by (simp_all add: validDate_def)
  have "dayNumber (getFullYear s) (getMonth s + 1) (getDate s)
      = dayNumber (getFullYear s) (getMonth s + 1) 0 + getDate s" by (rule dayNumber_day)
  moreover have "dayNumber (getFullYear t) (getMonth t + 1) (getDate t)
      = dayNumber (getFullYear t) (getMonth t + 1) 0 + getDate t" by (rule dayNumber_day)
  ultimately show ?thesis using m a b ds dt by linarith
qed

text \<open>
  C6: \<open>calculateJulianDay\<close> is strictly monotone on valid Gregorian date/times: when
  \<open>s\<close> is earlier than \<open>t\<close> (by year, month, day, hour, minute and second), the Julian Day
  of \<open>s\<close> is strictly less than the Julian Day of \<open>t\<close>.
\<close>

theorem C6_julianDay_monotone:
  assumes s: "validDate s" and t: "validDate t" and e: "earlier s t"
  shows "calculateJulianDay s < calculateJulianDay t"
proof -
  define ns where "ns = dayNumber (getFullYear s) (getMonth s + 1) (getDate s)"
  define nt where "nt = dayNumber (getFullYear t) (getMonth t + 1) (getDate t)"
  have js: "calculateJulianDay s = of_int ns + of_int (secondOfDay s) / 86400 - 1524.5"
    and jt: "calculateJulianDay t = of_int nt + of_int (secondOfDay t) / 86400 - 1524.5"
    by (simp_all only: ns_def nt_def calculateJulianDay_split)
  have rs: "0 \<le> real_of_int (secondOfDay s) / 86400" "real_of_int (secondOfDay s) / 86400 < 1"
    using secondOfDay_range [OF s] by simp_all
  have rt: "0 \<le> real_of_int (secondOfDay t) / 86400" "real_of_int (secondOfDay t) / 86400 < 1"
    using secondOfDay_range [OF t] by simp_all
  from e consider
      (month) "getFullYear s < getFullYear t
        \<or> (getFullYear s = getFullYear t \<and> getMonth s < getMonth t)"
    | (day) "getFullYear s = getFullYear t" "getMonth s = getMonth t" "getDate s < getDate t"
    | (time) "getFullYear s = getFullYear t" "getMonth s = getMonth t" "getDate s = getDate t"
        "secondOfDay s < secondOfDay t"
    unfolding earlier_def by blast
  then show ?thesis
  proof cases
    case month
    from dayNumber_earlier [OF s t month] have "ns < nt" by (simp only: ns_def nt_def)
    then have "real_of_int ns + 1 \<le> real_of_int nt" by linarith
    with rs rt show ?thesis unfolding js jt by linarith
  next
    case day
    then have "ns < nt" unfolding ns_def nt_def by (simp add: dayNumber_day [of _ _ "getDate _"])
    then have "real_of_int ns + 1 \<le> real_of_int nt" by linarith
    with rs rt show ?thesis unfolding js jt by linarith
  next
    case time
    then have "ns = nt" by (simp add: ns_def nt_def)
    moreover from time(4) have "real_of_int (secondOfDay s) / 86400 < real_of_int (secondOfDay t) / 86400"
      by simp
    ultimately show ?thesis unfolding js jt by simp
  qed
qed

theorem C6_witness:
  "validDate \<lparr>getFullYear = 1999, getMonth = 11, getDate = 31, getHours = 23, getMinutes = 59, getSeconds = 59\<rparr>
   \<and> validDate \<lparr>getFullYear = 2000, getMonth = 0, getDate = 1, getHours = 0, getMinutes = 0, getSeconds = 0\<rparr>
   \<and> earlier \<lparr>getFullYear = 1999, getMonth = 11, getDate = 31, getHours = 23, getMinutes = 59, getSeconds = 59\<rparr>
        \<lparr>getFullYear = 2000, getMonth = 0, getDate = 1, getHours = 0, getMinutes = 0, getSeconds = 0\<rparr>
   \<and> calculateJulianDay \<lparr>getFullYear = 1999, getMonth = 11, getDate = 31, getHours = 23, getMinutes = 59, getSeconds = 59\<rparr>
       < calculateJulianDay \<lparr>getFullYear = 2000, getMonth = 0, getDate = 1, getHours = 0, getMinutes = 0, getSeconds = 0\<rparr>"
proof -
  define s where "s = \<lparr>getFullYear = 1999, getMonth = 11, getDate = 31, getHours = 23, getMinutes = 59, getSeconds = 59\<rparr>"
  define t where "t = \<lparr>getFullYear = 2000, getMonth = 0, getDate = 1, getHours = 0, getMinutes = 0, getSeconds = 0\<rparr>"
  have vs: "validDate s" by (simp add: s_def validDate_def daysInMonth_def)
  have vt: "validDate t" by (simp add: t_def validDate_def daysInMonth_def)
  have e: "earlier s t" by (simp add: s_def t_def earlier_def)
  from vs vt e C6_julianDay_monotone [OF vs vt e] show ?thesis
    unfolding s_def t_def by (intro conjI)
qed

section \<open>Properties of the planetary positions\<close>

lemma jsmod_id_neg:
  assumes "- y < x" "x \<le> 0"
  shows "jsmod x y = x"
proof (cases "x = 0")
  case True
  then show ?thesis by (simp add: jsmod_zero)
next
  case False
  with assms have x: "x < 0" "0 < y" by simp_all
  then have "x / y < 0" by (simp add: divide_less_0_iff)
  moreover from assms x have "- 1 < x / y" by (simp add: pos_less_divide_eq)
  ultimately have "\<lceil>x / y\<rceil> = 0" "\<not> 0 \<le> x / y" by (simp_all add: ceiling_eq_iff)
  then show ?thesis by (simp add: jsmod_def trunc_def)
qed

lemma randomOffset_bounded: "\<bar>randomOffset d rnd\<bar> \<le> 15"
proof -
  have "\<bar>sin (d * (0.1 + rnd * 0.05))\<bar> \<le> 1" by (rule abs_sin_le_one)
  then show ?thesis by (simp add: randomOffset_def abs_mult)
qed

lemma baseJD_utc: "baseJD 0 = 2451545"
  by (simp add: baseJD_def baseDate_def calculateJulianDay_def Let_def)

lemma sign_is_floor:
  "sign (positionOf d off planet info) = \<lfloor>longitude (positionOf d off planet info) / 30\<rfloor>"
  by (simp add: positionOf_def Let_def)

lemma longitude_after_epoch:
  assumes "0 \<le> d" "0 \<le> orbSpeed info" "\<bar>off\<bar> \<le> 15"
  shows "0 \<le> longitude (positionOf d off planet info) \<and> longitude (positionOf d off planet info) < 360
       \<and> 0 \<le> sign (positionOf d off planet info) \<and> sign (positionOf d off planet info) \<le> 11"
proof -
  define l where "l = degreeInZodiac d (orbSpeed info) off"
  from assms have "0 \<le> d * orbSpeed info" by simp
  then have "0 \<le> basePosition d (orbSpeed info)"
    unfolding basePosition_def using jsmod_nonneg [of "d * orbSpeed info" 360] by simp
  with assms(3) have "0 \<le> basePosition d (orbSpeed info) + off + 360" by linarith
  then have r: "0 \<le> l \<and> l < 360"
    unfolding l_def degreeInZodiac_def by (intro jsmod_nonneg) simp_all
  then have "0 \<le> l / 30" "l / 30 < 12" by simp_all
  then have "0 \<le> \<lfloor>l / 30\<rfloor>" "\<lfloor>l / 30\<rfloor> < 12" by (simp_all add: floor_less_iff)
  with r show ?thesis by (simp add: positionOf_def Let_def l_def)
qed

lemma registry_speeds: "(planet, info) \<in> set planets \<Longrightarrow> 0 \<le> orbSpeed info"
  by (auto simp: planets_def)

text \<open>
  From the epoch on, every position that \<open>calculatePlanetaryPositions\<close> emits has its
  longitude in \<open>[0, 360)\<close> and its sign index in \<open>[0, 11]\<close>, whatever \<open>Math.random()\<close> returns.
\<close>

lemma positions_after_epoch:
  assumes "baseJD tz \<le> jd" and "(planet, p) \<in> set (calculatePlanetaryPositions tz random jd lat lon)"
  shows "0 \<le> longitude p \<and> longitude p < 360 \<and> 0 \<le> sign p \<and> sign p \<le> 11
       \<and> sign p = \<lfloor>longitude p / 30\<rfloor>"
proof -
  define d where "d = jd - baseJD tz"
  from assms(2) obtain info where i: "(planet, info) \<in> set planets"
    and p: "p = positionOf d (randomOffset d (random planet)) planet info"
    by (auto simp: calculatePlanetaryPositions_def Let_def d_def)
  from assms(1) have "0 \<le> d" by (simp add: d_def)
  from longitude_after_epoch [OF this registry_speeds [OF i] randomOffset_bounded]
    sign_is_floor [of d "randomOffset d (random planet)" planet info]
  show ?thesis by (simp only: p) simp
qed

lemma sin_27: "38 / 100 \<le> sin (27 / 10 :: real)"
proof -
  have f: "fact 9 = (362880 :: real)" by (simp add: fact_numeral)
  have a: "\<bar>27 / 10 :: real\<bar> = 27 / 10" by simp
  have s: "(\<Sum>m<9. sin_coeff m * (27/10 :: real) ^ m)
      = 27/10 - (27/10)^3 / 6 + (27/10)^5 / 120 - (27/10)^7 / 5040"
    by (simp add: sin_coeff_def lessThan_nat_numeral fact_numeral)
  have "\<bar>sin (27/10::real) - (\<Sum>m<9. sin_coeff m * (27/10) ^ m)\<bar> \<le> inverse (fact 9) * \<bar>27/10\<bar> ^ 9"
    by (rule Maclaurin_sin_bound)
  then have "\<bar>sin (27/10::real) - (27/10 - (27/10)^3 / 6 + (27/10)^5 / 120 - (27/10)^7 / 5040)\<bar>
      \<le> inverse 362880 * (27/10) ^ 9" unfolding s f a .
  then have "27/10 - (27/10)^3 / 6 + (27/10)^5 / 120 - (27/10)^7 / 5040 - inverse 362880 * (27/10) ^ 9
      \<le> sin (27/10::real)" by linarith
  moreover have "(38 / 100 :: real)
      \<le> 27/10 - (27/10)^3 / 6 + (27/10)^5 / 120 - (27/10)^7 / 5040 - inverse 362880 * (27/10) ^ 9"
    by (simp add: power_divide)
  ultimately show ?thesis by linarith
qed

lemma moon_position:
  "map_of (calculatePlanetaryPositions tz random jd lat lon) ''moon''
    = Some (positionOf (jd - baseJD tz) (randomOffset (jd - baseJD tz) (random ''moon'')) ''moon''
        \<lparr>name = ''Moon'', orbSpeed = 13.2\<rparr>)"
  by (simp add: calculatePlanetaryPositions_def planets_def Let_def)

lemma sun_position:
  "map_of (calculatePlanetaryPositions tz random jd lat lon) ''sun''
    = Some (positionOf (jd - baseJD tz) (randomOffset (jd - baseJD tz) (random ''sun'')) ''sun''
        \<lparr>name = ''Sun'', orbSpeed = 1\<rparr>)"
  by (simp add: calculatePlanetaryPositions_def planets_def Let_def)

lemma julianDay_1999_12_05: "calculateJulianDay (localDate 1999 12 5 12 0) = 2451518"
  by (simp add: calculateJulianDay_def localDate_def Let_def)

lemma moon_offset_1999_12_05: "randomOffset (- 27) 0 = - (15 * sin (27 / 10))"
proof -
  have "(- 27 :: real) * (0.1 + 0 * 0.05) = - (27 / 10)" by simp
  then show ?thesis unfolding randomOffset_def by (simp only: sin_minus)
qed

lemma moon_degree_1999_12_05:
  "degreeInZodiac (- 27) 13.2 (randomOffset (- 27) 0) = 36 / 10 - 15 * sin (27 / 10)"
proof -
  have p: "basePosition (- 27) 13.2 = - 356.4"
  proof -
    have "(- 27 :: real) * 13.2 = - 356.4" by simp
    moreover have "jsmod (- 356.4) 360 = - 356.4" by (rule jsmod_id_neg) simp_all
    ultimately show ?thesis unfolding basePosition_def by (simp only:)
  qed
  have s: "sin (27 / 10 :: real) \<le> 1" by simp
  have e: "- 356.4 + - (15 * sin (27 / 10 :: real)) + 360 = 36 / 10 - 15 * sin (27 / 10)" by simp
  have "jsmod (36 / 10 - 15 * sin (27 / 10)) 360 = 36 / 10 - 15 * sin (27 / 10)"
    using sin_27 s by (intro jsmod_id_neg) linarith+
  then show ?thesis unfolding degreeInZodiac_def p moon_offset_1999_12_05 e .
qed

text \<open>
  C1 at a birth date before the epoch: on a host in UTC, for 1999-12-05 12:00 (27 days
  before the epoch) and with \<open>Math.random()\<close> returning 0 for the Moon, the Moon's base
  position is -356.4, the perturbation is \<open>15 * sin (-2.7)\<close>, about -6.41, and the longitude
  that \<open>calculatePlanetaryPositions\<close> emits is negative, with sign index -1.
\<close>

theorem C1_negative_longitude:
  "\<exists>p. map_of (calculatePlanetaryPositions 0 (\<lambda>planet. 0)
              (calculateJulianDay (localDate 1999 12 5 12 0)) 40.7128 (- 74.0060)) ''moon'' = Some p
       \<and> longitude p = 36 / 10 - 15 * sin (27 / 10) \<and> longitude p < 0 \<and> sign p = - 1"
proof -
  define l :: real where "l = 36 / 10 - 15 * sin (27 / 10)"
  have d: "calculateJulianDay (localDate 1999 12 5 12 0) - baseJD 0 = - 27"
    by (simp add: julianDay_1999_12_05 baseJD_utc)
  have r: "- 12 \<le> l" "l < 0" using sin_27 sin_le_one [of "27 / 10"] unfolding l_def by linarith+
  then have "- 1 \<le> l / 30" "l / 30 < 0" by simp_all
  then have f: "\<lfloor>l / 30\<rfloor> = - 1" by (simp add: floor_eq_iff)
  have "longitude (positionOf (- 27) (randomOffset (- 27) 0) ''moon'' \<lparr>name = ''Moon'', orbSpeed = 13.2\<rparr>) = l"
    "sign (positionOf (- 27) (randomOffset (- 27) 0) ''moon'' \<lparr>name = ''Moon'', orbSpeed = 13.2\<rparr>) = \<lfloor>l / 30\<rfloor>"
    unfolding positionOf_def Let_def l_def
    by (simp_all only: planetPosition.select_convs planetInfo.select_convs moon_degree_1999_12_05)
  with r f show ?thesis unfolding moon_position d l_def by simp
qed

section \<open>The end-to-end scenario\<close>

lemma baseJD_utc_minus_5: "baseJD (- 300) = 2451545 - 5 / 24"
  by (simp add: baseJD_def baseDate_def calculateJulianDay_def Let_def)

text \<open>
  On a host whose time zone is UTC the scenario is as the specification describes it:
  0 days since the epoch, so that every base position and every perturbation is 0 whatever
  \<open>Math.random()\<close> returns, the Sun is at longitude 0 in sign 0, and the twelve cusps of the
  equal system are 30 degrees apart from the computed ascendant on.
\<close>

lemma scenario_on_utc_host:
  "calculateJulianDay (localDate 2000 1 1 12 0) - baseJD 0 = 0"
  "basePosition 0 speed = 0"
  "randomOffset 0 rnd = 0"
  "\<exists>p. map_of (calculatePlanetaryPositions 0 random
            (calculateJulianDay (localDate 2000 1 1 12 0)) 40.7128 (- 74.0060)) ''sun'' = Some p
       \<and> longitude p = 0 \<and> sign p = 0"
  "\<exists>asc. calculateAscendant (calculateJulianDay (localDate 2000 1 1 12 0)) 40.7128 (- 74.0060) = Some asc
       \<and> calculateHouses (calculateJulianDay (localDate 2000 1 1 12 0)) 40.7128 (- 74.0060) ''equal''
           = Some (equalHouses asc)
       \<and> cusp (equalHouses asc ! 0) = asc
       \<and> (\<forall>i<12. cusp (equalHouses asc ! ((i + 1) mod 12)) - cusp (equalHouses asc ! i) = 30
                  \<or> cusp (equalHouses asc ! ((i + 1) mod 12)) - cusp (equalHouses asc ! i) = 30 - 360)"
proof -
  show d: "calculateJulianDay (localDate 2000 1 1 12 0) - baseJD 0 = 0"
    by (simp add: julianDay_epoch baseJD_utc)
  have b: "basePosition 0 s = 0" for s by (simp add: basePosition_def jsmod_zero)
  show "basePosition 0 speed = 0" by (rule b)
  have r: "randomOffset 0 x = 0" for x by (simp add: randomOffset_def)
  show "randomOffset 0 rnd = 0" by (rule r)
  have "jsmod 360 360 = 360 - 360" by (rule jsmod_wrap) simp_all
  then have z: "degreeInZodiac 0 1 0 = 0" by (simp add: degreeInZodiac_def b)
  show "\<exists>p. map_of (calculatePlanetaryPositions 0 random
            (calculateJulianDay (localDate 2000 1 1 12 0)) 40.7128 (- 74.0060)) ''sun'' = Some p
       \<and> longitude p = 0 \<and> sign p = 0"
    unfolding sun_position d r by (simp add: positionOf_def Let_def z)
  have n: "ascendantDivisor 2451545 40.7128 (- 74.0060) \<noteq> 0"
    using divisor_scenario by simp
  from calculateAscendant_defined [OF n] obtain asc
    where asc: "calculateAscendant 2451545 40.7128 (- 74.0060) = Some asc" by blast
  from calculateAscendant_range [OF asc] have ar: "0 \<le> asc" "asc < 360" by simp_all
  have hs: "calculateHouses 2451545 40.7128 (- 74.0060) ''equal'' = Some (equalHouses asc)"
    unfolding calculateHouses_def Let_def asc by simp
  have c: "\<forall>i<12. cusp (equalHouses asc ! ((i + 1) mod 12)) - cusp (equalHouses asc ! i) = 30
                 \<or> cusp (equalHouses asc ! ((i + 1) mod 12)) - cusp (equalHouses asc ! i) = 30 - 360"
    using equalHouses_consecutive [OF ar] by blast
  from asc hs c equalHouses_first [OF ar]
  show "\<exists>asc. calculateAscendant (calculateJulianDay (localDate 2000 1 1 12 0)) 40.7128 (- 74.0060) = Some asc
       \<and> calculateHouses (calculateJulianDay (localDate 2000 1 1 12 0)) 40.7128 (- 74.0060) ''equal''
           = Some (equalHouses asc)
       \<and> cusp (equalHouses asc ! 0) = asc
       \<and> (\<forall>i<12. cusp (equalHouses asc ! ((i + 1) mod 12)) - cusp (equalHouses asc ! i) = 30
                  \<or> cusp (equalHouses asc ! ((i + 1) mod 12)) - cusp (equalHouses asc ! i) = 30 - 360)"
    unfolding julianDay_epoch by blast
qed

text \<open>
  C9 on a host five hours west of UTC (the zone of the scenario's own coordinates): the
  base date, written with the designator \<open>Z\<close>, is read there through the local-time getters
  as 07:00, so its Julian Day is 2451545 - 5/24, the scenario's birth time is 5/24 days
  after it and not 0, and the Moon's base position is 2.75 degrees and not 0.
\<close>

theorem C9_scenario_west_of_utc:
  "baseJD (- 300) = 2451545 - 5 / 24
   \<and> calculateJulianDay (localDate 2000 1 1 12 0) - baseJD (- 300) = 5 / 24
   \<and> (\<exists>info. map_of planets ''moon'' = Some info
         \<and> basePosition (calculateJulianDay (localDate 2000 1 1 12 0) - baseJD (- 300)) (orbSpeed info)
             = 11 / 4)
   \<and> calculatePlanetaryPositions (- 300) random (calculateJulianDay (localDate 2000 1 1 12 0))
        40.7128 (- 74.0060)
       = map (\<lambda>(planet, info).
               (planet, positionOf (5 / 24) (randomOffset (5 / 24) (random planet)) planet info))
             planets"
proof -
  have d: "calculateJulianDay (localDate 2000 1 1 12 0) - baseJD (- 300) = 5 / 24"
    by (simp add: julianDay_epoch baseJD_utc_minus_5)
  have "(5 / 24 :: real) * 13.2 = 11 / 4" by simp
  moreover have "jsmod (11 / 4) 360 = 11 / 4" by (rule jsmod_id) simp_all
  ultimately have "basePosition (5 / 24) 13.2 = 11 / 4"
    unfolding basePosition_def by (simp only:)
  moreover have "map_of planets ''moon'' = Some \<lparr>name = ''Moon'', orbSpeed = 13.2\<rparr>"
    by (simp add: planets_def)
  moreover have "calculatePlanetaryPositions (- 300) random (calculateJulianDay (localDate 2000 1 1 12 0))
        40.7128 (- 74.0060)
       = map (\<lambda>(planet, info).
               (planet, positionOf (5 / 24) (randomOffset (5 / 24) (random planet)) planet info))
             planets"
    unfolding calculatePlanetaryPositions_def Let_def d ..
  ultimately show ?thesis unfolding d using baseJD_utc_minus_5 by simp
qed

section \<open>Properties of the aspects\<close>

lemma checkAspectTypes_length: "length (checkAspectTypes p q tbl) \<le> 1"
  by (induction tbl) (auto simp: Let_def)

lemma checkAspectTypes_first:
  assumes "a \<in> set (checkAspectTypes p q tbl)"
  shows "planet1 a = fst p \<and> planet2 a = fst q
       \<and> (\<exists>before entry after. tbl = before @ (type a, entry) # after
             \<and> orbTest (separation (longitude (snd p)) (longitude (snd q))) entry
             \<and> (\<forall>e \<in> set before. \<not> orbTest (separation (longitude (snd p)) (longitude (snd q))) (snd e)))"
  using assms
proof (induction tbl)
  case Nil
  then show ?case by simp
next
  case (Cons e tbl)
  obtain k t where e: "e = (k, t)" by (cases e)
  show ?case
  proof (cases "orbTest (separation (longitude (snd p)) (longitude (snd q))) t")
    case True
    with Cons.prems e have "planet1 a = fst p" "planet2 a = fst q" "type a = k"
      by (simp_all add: Let_def orbTest_def)
    moreover have "e # tbl = [] @ (k, t) # tbl" by (simp add: e)
    ultimately show ?thesis using True by fastforce
  next
    case False
    with Cons.prems e have "a \<in> set (checkAspectTypes p q tbl)"
      by (simp add: Let_def orbTest_def)
    from Cons.IH [OF this] obtain before entry after where
      f: "planet1 a = fst p" "planet2 a = fst q" "tbl = before @ (type a, entry) # after"
        "orbTest (separation (longitude (snd p)) (longitude (snd q))) entry"
        "\<forall>e \<in> set before. \<not> orbTest (separation (longitude (snd p)) (longitude (snd q))) (snd e)"
      by blast
    have "e # tbl = (e # before) @ (type a, entry) # after" by (simp add: f(3))
    moreover have "\<forall>e' \<in> set (e # before).
        \<not> orbTest (separation (longitude (snd p)) (longitude (snd q))) (snd e')"
      using f(5) False e by simp
    ultimately show ?thesis using f(1,2,4) by blast
  qed
qed

lemma pairLoop_member:
  "a \<in> set (pairLoop p rest) \<Longrightarrow> \<exists>q \<in> set rest. a \<in> set (checkAspectTypes p q aspectTypes)"
  by (induction rest) auto

lemma calculateAspects_member:
  "a \<in> set (calculateAspects ps) \<Longrightarrow>
   \<exists>p q. p \<in> set ps \<and> q \<in> set ps \<and> a \<in> set (checkAspectTypes p q aspectTypes)"
proof (induction ps)
  case Nil
  then show ?case by simp
next
  case (Cons p ps)
  from Cons.prems consider "a \<in> set (pairLoop p ps)" | "a \<in> set (calculateAspects ps)" by auto
  then show ?case
  proof cases
    case 1
    from pairLoop_member [OF this] obtain q
      where "q \<in> set ps" "a \<in> set (checkAspectTypes p q aspectTypes)" by blast
    then show ?thesis by (intro exI [of _ p] exI [of _ q]) simp
  next
    case 2
    from Cons.IH [OF this] obtain p' q'
      where "p' \<in> set ps" "q' \<in> set ps" "a \<in> set (checkAspectTypes p' q' aspectTypes)" by blast
    then show ?thesis by (intro exI [of _ p'] exI [of _ q']) simp
  qed
qed

lemma pairLoop_planets:
  "a \<in> set (pairLoop p rest) \<Longrightarrow> planet1 a = fst p \<and> planet2 a \<in> fst ` set rest"
  using pairLoop_member [of a p rest] checkAspectTypes_first [of a p _ aspectTypes] by force

lemma calculateAspects_planets:
  "a \<in> set (calculateAspects ps) \<Longrightarrow> planet1 a \<in> fst ` set ps \<and> planet2 a \<in> fst ` set ps"
  using calculateAspects_member [of a ps] checkAspectTypes_first [of a _ _ aspectTypes] by force

lemma filter_none: "(\<And>a. a \<in> set xs \<Longrightarrow> \<not> P a) \<Longrightarrow> filter P xs = []"
  by (induction xs) auto

lemma pairLoop_count:
  assumes "distinct (map fst rest)"
  shows "length (filter (\<lambda>a. planet2 a = y) (pairLoop p rest)) \<le> 1"
  using assms
proof (induction rest)
  case Nil
  then show ?case by simp
next
  case (Cons q rest)
  show ?case
  proof (cases "fst q = y")
    case True
    with Cons.prems have "y \<notin> fst ` set rest" by auto
    then have "\<not> planet2 a = y" if "a \<in> set (pairLoop p rest)" for a
      using pairLoop_planets [OF that] by auto
    then have "filter (\<lambda>a. planet2 a = y) (pairLoop p rest) = []"
      by (rule filter_none)
    moreover have "length (filter (\<lambda>a. planet2 a = y) (checkAspectTypes p q aspectTypes)) \<le> 1"
      using checkAspectTypes_length [of p q aspectTypes] length_filter_le
      by (rule order_trans [rotated])
    ultimately show ?thesis by simp
  next
    case False
    have "\<not> planet2 a = y" if "a \<in> set (checkAspectTypes p q aspectTypes)" for a
      using checkAspectTypes_first [OF that] False by simp
    then have "filter (\<lambda>a. planet2 a = y) (checkAspectTypes p q aspectTypes) = []"
      by (rule filter_none)
    moreover from Cons have "length (filter (\<lambda>a. planet2 a = y) (pairLoop p rest)) \<le> 1" by simp
    ultimately show ?thesis by simp
  qed
qed

lemma calculateAspects_count:
  assumes "distinct (map fst ps)" "x \<noteq> y"
  shows "length (filter (\<lambda>a. joins a x y) (calculateAspects ps)) \<le> 1"
  using assms(1)
proof (induction ps)
  case Nil
  then show ?case by simp
next
  case (Cons p ps)
  from Cons.prems have d: "distinct (map fst ps)" and n: "fst p \<notin> fst ` set ps" by auto
  have pl: "planet1 a = fst p" "planet2 a \<in> fst ` set ps" if "a \<in> set (pairLoop p ps)" for a
    using pairLoop_planets [OF that] by simp_all
  have ca: "planet1 a \<noteq> fst p" "planet2 a \<noteq> fst p" if "a \<in> set (calculateAspects ps)" for a
    using calculateAspects_planets [OF that] n by metis+
  consider "fst p = x" | "fst p = y" | "fst p \<noteq> x" "fst p \<noteq> y" by blast
  then show ?case
  proof cases
    case 1
    have "\<not> joins a x y" if "a \<in> set (calculateAspects ps)" for a
      using ca [OF that] 1 by (auto simp: joins_def)
    then have "filter (\<lambda>a. joins a x y) (calculateAspects ps) = []" by (rule filter_none)
    moreover have "joins a x y = (planet2 a = y)" if "a \<in> set (pairLoop p ps)" for a
      using pl [OF that] 1 assms(2) by (auto simp: joins_def)
    then have "filter (\<lambda>a. joins a x y) (pairLoop p ps) = filter (\<lambda>a. planet2 a = y) (pairLoop p ps)"
      by (intro filter_cong refl)
    ultimately show ?thesis using pairLoop_count [OF d, of y p] by simp
  next
    case 2
    have "\<not> joins a x y" if "a \<in> set (calculateAspects ps)" for a
      using ca [OF that] 2 by (auto simp: joins_def)
    then have "filter (\<lambda>a. joins a x y) (calculateAspects ps) = []" by (rule filter_none)
    moreover have "joins a x y = (planet2 a = x)" if "a \<in> set (pairLoop p ps)" for a
      using pl [OF that] 2 assms(2) by (auto simp: joins_def)
    then have "filter (\<lambda>a. joins a x y) (pairLoop p ps) = filter (\<lambda>a. planet2 a = x) (pairLoop p ps)"
      by (intro filter_cong refl)
    ultimately show ?thesis using pairLoop_count [OF d, of x p] by simp
  next
    case 3
    have "\<not> joins a x y" if "a \<in> set (pairLoop p ps)" for a
      using pl [OF that] 3 by (auto simp: joins_def)
    then have "filter (\<lambda>a. joins a x y) (pairLoop p ps) = []" by (rule filter_none)
    with Cons.IH [OF d] show ?thesis by simp
  qed
qed

text \<open>
  C2: for every map of planet positions (a list of entries with distinct keys, in key
  order) and every two distinct planets, \<open>calculateAspects\<close> records at most one aspect
  that joins the two; and the type of every recorded aspect is the first entry of the
  table, in the order conjunction, opposition, trine, square, sextile, semisextile,
  semisquare, sesquiquadrate, quincunx, quintile, biquintile, whose orb test
  \<open>|angle - canonical angle| \<le> orb\<close> passes for the angle between its two planets: every
  entry before it fails the test, whatever the entries after it do.
\<close>

theorem C2_aspect_unique_first:
  assumes "distinct (map fst planetPositions)" and "x \<noteq> y"
  shows "length (filter (\<lambda>a. joins a x y) (calculateAspects planetPositions)) \<le> 1
    \<and> map fst aspectTypes =
        [''conjunction'', ''opposition'', ''trine'', ''square'', ''sextile'', ''semisextile'',
         ''semisquare'', ''sesquiquadrate'', ''quincunx'', ''quintile'', ''biquintile'']
    \<and> (\<forall>a \<in> set (calculateAspects planetPositions).
          \<exists>pos1 pos2 before entry after.
            map_of planetPositions (planet1 a) = Some pos1
          \<and> map_of planetPositions (planet2 a) = Some pos2
          \<and> aspectTypes = before @ (type a, entry) # after
          \<and> orbTest (separation (longitude pos1) (longitude pos2)) entry
          \<and> (\<forall>e \<in> set before. \<not> orbTest (separation (longitude pos1) (longitude pos2)) (snd e)))"
proof (intro conjI ballI)
  show "length (filter (\<lambda>a. joins a x y) (calculateAspects planetPositions)) \<le> 1"
    using assms by (rule calculateAspects_count)
  show "map fst aspectTypes =
        [''conjunction'', ''opposition'', ''trine'', ''square'', ''sextile'', ''semisextile'',
         ''semisquare'', ''sesquiquadrate'', ''quincunx'', ''quintile'', ''biquintile'']"
    by (simp add: aspectTypes_def)
next
  fix a assume "a \<in> set (calculateAspects planetPositions)"
  from calculateAspects_member [OF this] obtain p q where
    pq: "p \<in> set planetPositions" "q \<in> set planetPositions"
      "a \<in> set (checkAspectTypes p q aspectTypes)" by blast
  from checkAspectTypes_first [OF pq(3)] obtain before entry after where
    f: "planet1 a = fst p" "planet2 a = fst q" "aspectTypes = before @ (type a, entry) # after"
      "orbTest (separation (longitude (snd p)) (longitude (snd q))) entry"
      "\<forall>e \<in> set before. \<not> orbTest (separation (longitude (snd p)) (longitude (snd q))) (snd e)"
    by blast
  have "map_of planetPositions (fst p) = Some (snd p)" "map_of planetPositions (fst q) = Some (snd q)"
    using assms(1) pq(1,2) by simp_all
  with f show "\<exists>pos1 pos2 before entry after.
            map_of planetPositions (planet1 a) = Some pos1
          \<and> map_of planetPositions (planet2 a) = Some pos2
          \<and> aspectTypes = before @ (type a, entry) # after
          \<and> orbTest (separation (longitude pos1) (longitude pos2)) entry
          \<and> (\<forall>e \<in> set before. \<not> orbTest (separation (longitude pos1) (longitude pos2)) (snd e))"
    by (intro exI [of _ "snd p"] exI [of _ "snd q"] exI [of _ before] exI [of _ entry] exI [of _ after])
      simp
qed

theorem C2_witness:
  "distinct (map fst
      [(''sun'', \<lparr>name = ''Sun'', orbSpeed = 1, longitude = 0, latitude = 0, sign = 0, degree = 0,
                 isRetrograde = False\<rparr>),
       (''moon'', \<lparr>name = ''Moon'', orbSpeed = 13.2, longitude = 145.5, latitude = 0, sign = 4,
                  degree = 25.5, isRetrograde = False\<rparr>)])
   \<and> ''sun'' \<noteq> ''moon''
   \<and> length (filter (\<lambda>a. joins a ''sun'' ''moon'') (calculateAspects
      [(''sun'', \<lparr>name = ''Sun'', orbSpeed = 1, longitude = 0, latitude = 0, sign = 0, degree = 0,
                 isRetrograde = False\<rparr>),
       (''moon'', \<lparr>name = ''Moon'', orbSpeed = 13.2, longitude = 145.5, latitude = 0, sign = 4,
                  degree = 25.5, isRetrograde = False\<rparr>)])) \<le> 1
   \<and> (\<exists>a before entry after. calculateAspects
      [(''sun'', \<lparr>name = ''Sun'', orbSpeed = 1, longitude = 0, latitude = 0, sign = 0, degree = 0,
                 isRetrograde = False\<rparr>),
       (''moon'', \<lparr>name = ''Moon'', orbSpeed = 13.2, longitude = 145.5, latitude = 0, sign = 4,
                  degree = 25.5, isRetrograde = False\<rparr>)] = [a]
        \<and> planet1 a = ''sun'' \<and> planet2 a = ''moon'' \<and> type a = ''quincunx''
        \<and> aspectTypes = before @ (''quincunx'', entry) # after
        \<and> orbTest (separation 0 145.5) entry
        \<and> list_all (\<lambda>e. \<not> orbTest (separation 0 145.5) (snd e)) before
        \<and> list_ex (\<lambda>e. fst e = ''biquintile'' \<and> orbTest (separation 0 145.5) (snd e)) after)"
proof -
  define ps where "ps =
      [(''sun'', \<lparr>name = ''Sun'', orbSpeed = 1, longitude = 0, latitude = 0, sign = 0, degree = 0,
                 isRetrograde = False\<rparr>),
       (''moon'', \<lparr>name = ''Moon'', orbSpeed = 13.2, longitude = 145.5 :: real, latitude = 0, sign = 4,
                  degree = 25.5, isRetrograde = False\<rparr>)]"
  define a where "a = \<lparr>planet1 = ''sun'', planet2 = ''moon'', type = ''quincunx'',
      angle = 145.5 :: real, orb = 4.5 :: real, aspectName = ''Quincunx'', influence = ''Adjustment'',
      applying = False\<rparr>"
  have d: "distinct (map fst ps)" by (simp add: ps_def)
  have n: "''sun'' \<noteq> ''moon''" by simp
  have s: "separation 0 145.5 = 145.5" by (simp add: separation_def)
  have c: "calculateAspects ps = [a]"
    by (simp add: ps_def a_def aspectTypes_def separation_def Let_def)
  from C2_aspect_unique_first [OF d n] have
    u: "length (filter (\<lambda>a. joins a ''sun'' ''moon'') (calculateAspects ps)) \<le> 1"
    and f: "\<forall>a \<in> set (calculateAspects ps).
          \<exists>pos1 pos2 before entry after.
            map_of ps (planet1 a) = Some pos1
          \<and> map_of ps (planet2 a) = Some pos2
          \<and> aspectTypes = before @ (type a, entry) # after
          \<and> orbTest (separation (longitude pos1) (longitude pos2)) entry
          \<and> (\<forall>e \<in> set before. \<not> orbTest (separation (longitude pos1) (longitude pos2)) (snd e))"
    by blast+
  from f c obtain pos1 pos2 before entry after where
    g: "map_of ps (planet1 a) = Some pos1" "map_of ps (planet2 a) = Some pos2"
      "aspectTypes = before @ (type a, entry) # after"
      "orbTest (separation (longitude pos1) (longitude pos2)) entry"
      "\<forall>e \<in> set before. \<not> orbTest (separation (longitude pos1) (longitude pos2)) (snd e)"
    by auto
  from g(1,2) have l: "longitude pos1 = 0" "longitude pos2 = 145.5"
    by (auto simp: ps_def a_def)
  have t: "type a = ''quincunx''" "planet1 a = ''sun''" "planet2 a = ''moon''" by (simp_all add: a_def)
  have "length before = 8"
  proof -
    have "map fst aspectTypes ! length before = ''quincunx''"
      by (simp add: g(3) t nth_append)
    moreover have "length before < 11"
      using arg_cong [OF g(3), of length] by (simp add: aspectTypes_def)
    ultimately show ?thesis
      by (auto simp: aspectTypes_def nth_Cons' less_Suc_eq numeral_eq_Suc split: if_splits)
  qed
  then have "drop 9 (before @ (type a, entry) # after) = after" by simp
  then have "after = drop 9 aspectTypes" by (simp only: g(3) [symmetric])
  then have x: "list_ex (\<lambda>e. fst e = ''biquintile'' \<and> orbTest (separation 0 145.5) (snd e)) after"
    by (simp add: aspectTypes_def separation_def orbTest_def)
  from g(5) have b: "list_all (\<lambda>e. \<not> orbTest (separation 0 145.5) (snd e)) before"
    by (simp only: l list_all_iff)
  from g(3,4) have "aspectTypes = before @ (''quincunx'', entry) # after"
    "orbTest (separation 0 145.5) entry" by (simp_all add: t l)
  with d n u c t b x show ?thesis unfolding ps_def [symmetric] by blast
qed

section \<open>Properties of the pattern search\<close>

text \<open>
  C3 on a chart that \<open>calculateAspects\<close> produces: with the Sun at 0, the Moon at 90 and
  Mars at 270 degrees (and the other planets between 10 and 21 degrees), the Moon and Mars
  are in opposition and the Sun is square to both, each square stored with the Sun, the
  earlier key, as \<open>planet1\<close>; \<open>findSpecialPatterns\<close> reports no pattern at all, so no
  T-Square for Moon, Mars and Sun.
\<close>

theorem C3_tsquare_missed:
  "aspectBetween (chartWith [0, 90, 10, 12, 270, 14, 16, 18, 20, 21]) ''opposition'' ''moon'' ''mars''
   \<and> aspectBetween (chartWith [0, 90, 10, 12, 270, 14, 16, 18, 20, 21]) ''square'' ''sun'' ''moon''
   \<and> aspectBetween (chartWith [0, 90, 10, 12, 270, 14, 16, 18, 20, 21]) ''square'' ''sun'' ''mars''
   \<and> findSpecialPatterns (chartWith [0, 90, 10, 12, 270, 14, 16, 18, 20, 21]) = Inr []"
  by code_simp

lemma members_ensureOwn: "members (ensureOwn p g) k = members g k"
proof (cases "map_of g p = None")
  case False
  then have "ensureOwn p g = g" unfolding ensureOwn_def by (simp only: if_False)
  then show ?thesis by simp
next
  case True
  show ?thesis
  proof (cases "map_of g k")
    case None
    with True show ?thesis by (simp add: members_def ensureOwn_def map_add_def)
  next
    case (Some s)
    with True show ?thesis by (simp add: members_def ensureOwn_def map_add_def)
  qed
qed

lemma keys_ensureOwn: "fst ` set (ensureOwn p g) = insert p (fst ` set g)"
  by (auto simp: ensureOwn_def map_of_eq_None_iff)

lemma distinct_ensureOwn: "distinct (map fst g) \<Longrightarrow> distinct (map fst (ensureOwn p g))"
  by (auto simp: ensureOwn_def map_of_eq_None_iff)

lemma keys_addMember: "map fst (addMember p q g) = map fst g"
  by (induction g) (auto simp: addMember_def)

lemma map_of_addMember:
  "map_of (addMember p q g) k =
     map_option (\<lambda>s. if k = p then (if q \<in> set s then s else s @ [q]) else s) (map_of g k)"
  by (induction g) (auto simp: addMember_def)

lemma members_addMember:
  "members (addMember p q g) k = (if k = p \<and> p \<in> fst ` set g then insert q (members g k) else members g k)"
proof (cases "map_of g k")
  case None
  then have "k \<notin> fst ` set g" by (simp add: map_of_eq_None_iff)
  with None show ?thesis by (auto simp: members_def map_of_addMember)
next
  case (Some s)
  then have "k \<in> fst ` set g" by (metis map_of_eq_None_iff option.distinct(1))
  with Some show ?thesis by (auto simp: members_def map_of_addMember)
qed

lemma keys_joinTrine: "fst ` set (joinTrine g t) = insert (planet1 t) (insert (planet2 t) (fst ` set g))"
proof -
  have "fst ` set (joinTrine g t) = set (map fst (joinTrine g t))" by simp
  also have "\<dots> = fst ` set (ensureOwn (planet2 t) (ensureOwn (planet1 t) g))"
    by (simp add: joinTrine_def Let_def keys_addMember)
  finally show ?thesis by (auto simp: keys_ensureOwn)
qed

lemma distinct_joinTrine: "distinct (map fst g) \<Longrightarrow> distinct (map fst (joinTrine g t))"
  by (simp add: joinTrine_def Let_def keys_addMember distinct_ensureOwn)

lemma members_joinTrine:
  "members (joinTrine g t) k =
     members g k \<union> (if k = planet1 t then {planet2 t} else {}) \<union> (if k = planet2 t then {planet1 t} else {})"
proof -
  define g' where "g' = ensureOwn (planet2 t) (ensureOwn (planet1 t) g)"
  have k': "planet1 t \<in> fst ` set g'" "planet2 t \<in> fst ` set g'"
    by (simp_all add: g'_def keys_ensureOwn)
  have m': "members g' k = members g k" for k
    by (simp add: g'_def members_ensureOwn)
  have k'': "planet2 t \<in> fst ` set (addMember (planet1 t) (planet2 t) g')"
    using k'(2) by (metis keys_addMember list.set_map)
  have "joinTrine g t = addMember (planet2 t) (planet1 t) (addMember (planet1 t) (planet2 t) g')"
    by (simp add: joinTrine_def Let_def g'_def)
  then show ?thesis
    using k' k'' by (auto simp: members_addMember m')
qed

lemma keys_trineGroups:
  "fst ` set (foldl joinTrine g ts) = fst ` set g \<union> planet1 ` set ts \<union> planet2 ` set ts"
  by (induction ts arbitrary: g) (auto simp: keys_joinTrine)

lemma distinct_trineGroups: "distinct (map fst g) \<Longrightarrow> distinct (map fst (foldl joinTrine g ts))"
  by (induction ts arbitrary: g) (auto simp: distinct_joinTrine)

lemma members_trineGroups:
  "members (foldl joinTrine g ts) k =
     members g k \<union> {y. \<exists>t \<in> set ts. (planet1 t = k \<and> planet2 t = y) \<or> (planet2 t = k \<and> planet1 t = y)}"
proof (induction ts arbitrary: g)
  case Nil
  then show ?case by simp
next
  case (Cons t ts)
  show ?case by (simp add: Cons.IH members_joinTrine) blast
qed

lemma members_empty: "members [] k = {}"
  by (simp add: members_def)

lemma closed_trineGroups: "closedGroups (foldl joinTrine [] ts)"
  unfolding closedGroups_def
  by (auto simp: distinct_trineGroups members_trineGroups keys_trineGroups members_empty)

lemma members_of_entry:
  "distinct (map fst g) \<Longrightarrow> (k, s) \<in> set g \<Longrightarrow> members g k = set s"
  by (simp add: members_def)

lemma alreadyAdded_iff: "alreadyAdded patterns k \<longleftrightarrow> k \<in> patternPlanets ` set patterns"
  by (auto simp: alreadyAdded_def list_ex_iff)

lemma considerTriad_step:
  assumes inv: "trineInvariant pls g patterns"
    and pos: "map_of pls p1 = Some pos"
    and p1: "p1 \<in> fst ` set g" "p2 \<in> members g p1" "p3 \<in> members g p1"
    and p2: "map_of g p2 = Some s2"
  shows "\<exists>patterns'. considerTriad pls g p1 p2 p3 patterns = Inr patterns'
      \<and> trineInvariant pls g patterns' \<and> set patterns \<subseteq> set patterns'
      \<and> (p2 \<noteq> p3 \<and> p3 \<in> members g p2 \<longrightarrow> tripletKey p1 p2 p3 \<in> patternPlanets ` set patterns')"
proof -
  have m: "members g p2 = set s2" by (simp add: members_def p2)
  consider (skip) "p2 = p3 \<or> p3 \<notin> set s2"
    | (old) "p2 \<noteq> p3" "p3 \<in> set s2" "alreadyAdded patterns (tripletKey p1 p2 p3)"
    | (new) "p2 \<noteq> p3" "p3 \<in> set s2" "\<not> alreadyAdded patterns (tripletKey p1 p2 p3)"
    by blast
  then show ?thesis
  proof cases
    case skip
    then have "considerTriad pls g p1 p2 p3 patterns = Inr patterns"
      by (auto simp: considerTriad_def p2)
    with inv skip m show ?thesis by auto
  next
    case old
    then have "considerTriad pls g p1 p2 p3 patterns = Inr patterns"
      by (simp add: considerTriad_def p2)
    with inv old show ?thesis by (auto simp: alreadyAdded_iff)
  next
    case new
    define p where "p = GrandTrine (tripletKey p1 p2 p3) (getSignElement \<lfloor>longitude pos / 30\<rfloor>)"
    from new have r: "considerTriad pls g p1 p2 p3 patterns = Inr (patterns @ [p])"
      by (simp add: considerTriad_def p2 pos p_def)
    have "trinePattern pls g p"
      unfolding trinePattern_def p_def using pos p1 by blast
    moreover have "patternPlanets p \<notin> patternPlanets ` set patterns"
      using new(3) by (simp add: alreadyAdded_iff p_def)
    ultimately have "trineInvariant pls g (patterns @ [p])"
      using inv by (auto simp: trineInvariant_def)
    moreover have "tripletKey p1 p2 p3 \<in> patternPlanets ` set (patterns @ [p])"
      by (simp add: p_def)
    ultimately show ?thesis using r by auto
  qed
qed

lemma loopP3_step:
  assumes inv: "trineInvariant pls g patterns"
    and pos: "map_of pls p1 = Some pos"
    and p1: "p1 \<in> fst ` set g" "p2 \<in> members g p1"
    and p2: "map_of g p2 = Some s2"
    and l3: "set l3 \<subseteq> members g p1"
  shows "\<exists>patterns'. loopP3 pls g p1 p2 l3 patterns = Inr patterns'
      \<and> trineInvariant pls g patterns' \<and> set patterns \<subseteq> set patterns'
      \<and> (\<forall>p3 \<in> set l3. p2 \<noteq> p3 \<and> p3 \<in> members g p2 \<longrightarrow>
            tripletKey p1 p2 p3 \<in> patternPlanets ` set patterns')"
  using inv l3
proof (induction l3 arbitrary: patterns)
  case Nil
  then show ?case by simp
next
  case (Cons p3 l3)
  from Cons.prems(2) have m: "p3 \<in> members g p1" and r: "set l3 \<subseteq> members g p1" by simp_all
  from considerTriad_step [OF Cons.prems(1) pos p1 m p2] obtain mid where
    mid: "considerTriad pls g p1 p2 p3 patterns = Inr mid" "trineInvariant pls g mid"
      "set patterns \<subseteq> set mid"
      "p2 \<noteq> p3 \<and> p3 \<in> members g p2 \<longrightarrow> tripletKey p1 p2 p3 \<in> patternPlanets ` set mid"
    by blast
  from Cons.IH [OF mid(2) r] obtain patterns' where
    fin: "loopP3 pls g p1 p2 l3 mid = Inr patterns'" "trineInvariant pls g patterns'"
      "set mid \<subseteq> set patterns'"
      "\<forall>p3 \<in> set l3. p2 \<noteq> p3 \<and> p3 \<in> members g p2 \<longrightarrow>
            tripletKey p1 p2 p3 \<in> patternPlanets ` set patterns'"
    by blast
  have "loopP3 pls g p1 p2 (p3 # l3) patterns = Inr patterns'"
    by (simp add: mid(1) fin(1))
  moreover have "set patterns \<subseteq> set patterns'" using mid(3) fin(3) by blast
  moreover have "\<forall>q \<in> set (p3 # l3). p2 \<noteq> q \<and> q \<in> members g p2 \<longrightarrow>
            tripletKey p1 p2 q \<in> patternPlanets ` set patterns'"
    using mid(4) fin(3,4) by auto
  ultimately show ?case using fin(2) by blast
qed

lemma loopP2_step:
  assumes inv: "trineInvariant pls g patterns"
    and closed: "closedGroups g"
    and pos: "map_of pls p1 = Some pos"
    and p1: "p1 \<in> fst ` set g"
    and s: "set s \<subseteq> members g p1"
    and l2: "set l2 \<subseteq> members g p1"
  shows "\<exists>patterns'. loopP2 pls g p1 s l2 patterns = Inr patterns'
      \<and> trineInvariant pls g patterns' \<and> set patterns \<subseteq> set patterns'
      \<and> (\<forall>p2 \<in> set l2. \<forall>p3 \<in> set s. p2 \<noteq> p3 \<and> p3 \<in> members g p2 \<longrightarrow>
            tripletKey p1 p2 p3 \<in> patternPlanets ` set patterns')"
  using inv l2
proof (induction l2 arbitrary: patterns)
  case Nil
  then show ?case by simp
next
  case (Cons p2 l2)
  from Cons.prems(2) have m: "p2 \<in> members g p1" and r: "set l2 \<subseteq> members g p1" by simp_all
  from m closed have "p2 \<in> fst ` set g" unfolding closedGroups_def by blast
  then obtain s2 where s2: "map_of g p2 = Some s2"
    by (metis map_of_eq_None_iff not_None_eq)
  from loopP3_step [OF Cons.prems(1) pos p1 m s2 s] obtain mid where
    mid: "loopP3 pls g p1 p2 s patterns = Inr mid" "trineInvariant pls g mid"
      "set patterns \<subseteq> set mid"
      "\<forall>p3 \<in> set s. p2 \<noteq> p3 \<and> p3 \<in> members g p2 \<longrightarrow>
            tripletKey p1 p2 p3 \<in> patternPlanets ` set mid"
    by blast
  from Cons.IH [OF mid(2) r] obtain patterns' where
    fin: "loopP2 pls g p1 s l2 mid = Inr patterns'" "trineInvariant pls g patterns'"
      "set mid \<subseteq> set patterns'"
      "\<forall>p2 \<in> set l2. \<forall>p3 \<in> set s. p2 \<noteq> p3 \<and> p3 \<in> members g p2 \<longrightarrow>
            tripletKey p1 p2 p3 \<in> patternPlanets ` set patterns'"
    by blast
  have "loopP2 pls g p1 s (p2 # l2) patterns = Inr patterns'"
    by (simp add: mid(1) fin(1))
  moreover have "set patterns \<subseteq> set patterns'" using mid(3) fin(3) by blast
  moreover have "\<forall>q \<in> set (p2 # l2). \<forall>p3 \<in> set s. q \<noteq> p3 \<and> p3 \<in> members g q \<longrightarrow>
            tripletKey p1 q p3 \<in> patternPlanets ` set patterns'"
  proof (intro ballI impI)
    fix q p3
    assume q: "q \<in> set (p2 # l2)" and a: "p3 \<in> set s" "q \<noteq> p3 \<and> p3 \<in> members g q"
    show "tripletKey p1 q p3 \<in> patternPlanets ` set patterns'"
    proof (cases "q = p2")
      case True
      with a mid(4) have "tripletKey p1 p2 p3 \<in> patternPlanets ` set mid" by blast
      with fin(3) True show ?thesis by blast
    next
      case False
      with q have "q \<in> set l2" by simp
      with fin(4) a show ?thesis by blast
    qed
  qed
  ultimately show ?case using fin(2) by blast
qed

lemma loopP1_step:
  assumes inv: "trineInvariant pls g patterns"
    and closed: "closedGroups g"
    and dom: "fst ` set g \<subseteq> fst ` set pls"
    and entries: "set entries \<subseteq> set g"
  shows "\<exists>patterns'. loopP1 pls g entries patterns = Inr patterns'
      \<and> trineInvariant pls g patterns' \<and> set patterns \<subseteq> set patterns'
      \<and> (\<forall>p1 \<in> fst ` set entries. \<forall>p2 \<in> members g p1. \<forall>p3 \<in> members g p1.
            p2 \<noteq> p3 \<and> p3 \<in> members g p2 \<longrightarrow>
            tripletKey p1 p2 p3 \<in> patternPlanets ` set patterns')"
  using inv entries
proof (induction entries arbitrary: patterns)
  case Nil
  then show ?case by simp
next
  case (Cons e entries)
  obtain p1 s where e: "e = (p1, s)" by (cases e)
  from Cons.prems(2) e have in_g: "(p1, s) \<in> set g" and r: "set entries \<subseteq> set g" by simp_all
  from closed have d: "distinct (map fst g)" by (simp add: closedGroups_def)
  have ms: "members g p1 = set s" using d in_g by (rule members_of_entry)
  have k: "p1 \<in> fst ` set g" using in_g by force
  with dom have "p1 \<in> fst ` set pls" by blast
  then obtain pos where pos: "map_of pls p1 = Some pos"
    by (metis map_of_eq_None_iff not_None_eq)
  have sub: "set s \<subseteq> members g p1" by (simp add: ms)
  from loopP2_step [OF Cons.prems(1) closed pos k sub sub] obtain mid where
    mid: "loopP2 pls g p1 s s patterns = Inr mid" "trineInvariant pls g mid"
      "set patterns \<subseteq> set mid"
      "\<forall>p2 \<in> set s. \<forall>p3 \<in> set s. p2 \<noteq> p3 \<and> p3 \<in> members g p2 \<longrightarrow>
            tripletKey p1 p2 p3 \<in> patternPlanets ` set mid"
    by blast
  from Cons.IH [OF mid(2) r] obtain patterns' where
    fin: "loopP1 pls g entries mid = Inr patterns'" "trineInvariant pls g patterns'"
      "set mid \<subseteq> set patterns'"
      "\<forall>p1 \<in> fst ` set entries. \<forall>p2 \<in> members g p1. \<forall>p3 \<in> members g p1.
            p2 \<noteq> p3 \<and> p3 \<in> members g p2 \<longrightarrow>
            tripletKey p1 p2 p3 \<in> patternPlanets ` set patterns'"
    by blast
  have "loopP1 pls g (e # entries) patterns = Inr patterns'"
    by (simp add: e mid(1) fin(1))
  moreover have "set patterns \<subseteq> set patterns'" using mid(3) fin(3) by blast
  moreover have "\<forall>q \<in> fst ` set (e # entries). \<forall>p2 \<in> members g q. \<forall>p3 \<in> members g q.
            p2 \<noteq> p3 \<and> p3 \<in> members g p2 \<longrightarrow>
            tripletKey q p2 p3 \<in> patternPlanets ` set patterns'"
  proof (intro ballI impI)
    fix q p2 p3
    assume q: "q \<in> fst ` set (e # entries)" and a: "p2 \<in> members g q" "p3 \<in> members g q"
      "p2 \<noteq> p3 \<and> p3 \<in> members g p2"
    show "tripletKey q p2 p3 \<in> patternPlanets ` set patterns'"
    proof (cases "q = p1")
      case True
      with a ms mid(4) have "tripletKey p1 p2 p3 \<in> patternPlanets ` set mid" by blast
      with fin(3) True show ?thesis by blast
    next
      case False
      with q e have "q \<in> fst ` set entries" by auto
      with fin(4) a show ?thesis by blast
    qed
  qed
  ultimately show ?case using fin(2) by blast
qed

lemma considerSquare_keeps:
  "set patterns \<subseteq> set (considerSquare squares p1 p2 patterns square)
   \<and> (distinct (map patternPlanets patterns) \<longrightarrow>
        distinct (map patternPlanets (considerSquare squares p1 p2 patterns square)))"
  by (auto simp: considerSquare_def Let_def alreadyAdded_iff)

lemma considerOpposition_keeps:
  "set patterns \<subseteq> set (considerOpposition squares patterns opposition)
   \<and> (distinct (map patternPlanets patterns) \<longrightarrow>
        distinct (map patternPlanets (considerOpposition squares patterns opposition)))"
proof -
  have "set patterns \<subseteq> set (foldl (considerSquare squares p1 p2) patterns xs)
   \<and> (distinct (map patternPlanets patterns) \<longrightarrow>
        distinct (map patternPlanets (foldl (considerSquare squares p1 p2) patterns xs)))"
    for p1 p2 xs
  proof (induction xs arbitrary: patterns)
    case Nil
    show ?case by simp
  next
    case (Cons x xs)
    from Cons.IH [of "considerSquare squares p1 p2 patterns x"]
      considerSquare_keeps [of patterns squares p1 p2 x]
    show ?case by auto
  qed
  then show ?thesis unfolding considerOpposition_def .
qed

lemma oppositions_keep:
  "set patterns \<subseteq> set (foldl (considerOpposition squares) patterns oppositions)
   \<and> (distinct (map patternPlanets patterns) \<longrightarrow>
        distinct (map patternPlanets (foldl (considerOpposition squares) patterns oppositions)))"
proof (induction oppositions arbitrary: patterns)
  case Nil
  show ?case by simp
next
  case (Cons x xs)
  from Cons.IH [of "considerOpposition squares patterns x"]
    considerOpposition_keeps [of patterns squares x]
  show ?case by auto
qed

lemma distinct_key_once:
  "distinct (map f xs) \<Longrightarrow> x \<in> set xs \<Longrightarrow> length (filter (\<lambda>y. f y = f x) xs) = 1"
proof (induction xs)
  case Nil
  then show ?case by simp
next
  case (Cons a xs)
  show ?case
  proof (cases "f a = f x")
    case True
    from Cons.prems(1) have "f a \<notin> f ` set xs" by simp
    with True have n: "f x \<notin> f ` set xs" by simp
    have "f y \<noteq> f x" if "y \<in> set xs" for y
    proof
      assume "f y = f x"
      with that have "f x \<in> f ` set xs" by (intro image_eqI [of _ _ y]) simp_all
      with n show False ..
    qed
    then have "filter (\<lambda>y. f y = f x) xs = []" by (simp add: filter_empty_conv)
    with True show ?thesis by simp
  next
    case False
    with Cons show ?thesis by auto
  qed
qed

lemma split_at_hyphen:
  assumes "CHR ''-'' \<notin> set a" "CHR ''-'' \<notin> set a'" "a @ CHR ''-'' # r = a' @ CHR ''-'' # r'"
  shows "a = a' \<and> r = r'"
  using assms
proof (induction a arbitrary: a')
  case Nil
  then show ?case by (cases a') auto
next
  case (Cons c a)
  then show ?case by (cases a') auto
qed

lemma join_three: "join ''-'' [a, b, c] = a @ CHR ''-'' # b @ CHR ''-'' # c"
  by simp

lemma join_three_inj:
  assumes "\<forall>x \<in> set [a, b, c]. CHR ''-'' \<notin> set x" "\<forall>x \<in> set [a', b', c']. CHR ''-'' \<notin> set x"
    and "join ''-'' [a, b, c] = join ''-'' [a', b', c']"
  shows "[a, b, c] = [a', b', c']"
proof -
  from assms(3) have e: "a @ CHR ''-'' # (b @ CHR ''-'' # c) = a' @ CHR ''-'' # (b' @ CHR ''-'' # c')"
    by (simp only: join_three)
  from assms(1,2) have "CHR ''-'' \<notin> set a" "CHR ''-'' \<notin> set a'" by simp_all
  from split_at_hyphen [OF this e] have 1: "a = a'" "b @ CHR ''-'' # c = b' @ CHR ''-'' # c'" by simp_all
  from assms(1,2) have "CHR ''-'' \<notin> set b" "CHR ''-'' \<notin> set b'" by simp_all
  from split_at_hyphen [OF this 1(2)] 1(1) show ?thesis by simp
qed

lemma sort_three: "\<exists>x y z. sort [a, b, c] = [x, y, z]" for a b c :: string
proof -
  have "length (sort [a, b, c]) = Suc (Suc (Suc 0))" by simp
  then show ?thesis by (auto simp: length_Suc_conv)
qed

lemma tripletKey_same_planets:
  assumes "\<forall>x \<in> {a, b, c}. CHR ''-'' \<notin> set x" "\<forall>x \<in> {a', b', c'}. CHR ''-'' \<notin> set x"
    and "tripletKey a b c = tripletKey a' b' c'"
  shows "{a, b, c} = {a', b', c'}"
proof -
  obtain x y z where s: "sort [a, b, c] = [x, y, z]" using sort_three by blast
  obtain x' y' z' where s': "sort [a', b', c'] = [x', y', z']" using sort_three by blast
  have "set (sort [a, b, c]) = {a, b, c}" "set (sort [a', b', c']) = {a', b', c'}" by auto
  then have m: "set [x, y, z] = {a, b, c}" "set [x', y', z'] = {a', b', c'}" by (simp_all only: s s')
  from assms(1,2) m have "\<forall>w \<in> set [x, y, z]. CHR ''-'' \<notin> set w" "\<forall>w \<in> set [x', y', z']. CHR ''-'' \<notin> set w"
    by (simp_all only:)
  moreover from assms(3) have "join ''-'' [x, y, z] = join ''-'' [x', y', z']"
    by (simp only: tripletKey_def s s')
  ultimately have "[x, y, z] = [x', y', z']" by (rule join_three_inj)
  then have "set [x, y, z] = set [x', y', z']" by (simp only:)
  then show ?thesis unfolding m .
qed

lemma tripletKey_permuted:
  "tripletKey a c b = tripletKey a b c" "tripletKey b a c = tripletKey a b c"
  "tripletKey b c a = tripletKey a b c" "tripletKey c a b = tripletKey a b c"
  "tripletKey c b a = tripletKey a b c"
proof -
  have s: "sort [x, y, z] = insort x (insort y (insort z []))" for x y z :: string by simp
  have 1: "sort [a, c, b] = sort [a, b, c]" unfolding s by (simp only: insort_left_comm [of c b])
  have 2: "sort [b, a, c] = sort [a, b, c]" unfolding s by (simp only: insort_left_comm [of b a])
  have 3: "sort [b, c, a] = sort [b, a, c]" unfolding s by (simp only: insort_left_comm [of c a])
  have 4: "sort [c, a, b] = sort [a, c, b]" unfolding s by (simp only: insort_left_comm [of c a])
  have 5: "sort [c, b, a] = sort [c, a, b]" unfolding s by (simp only: insort_left_comm [of b a])
  show "tripletKey a c b = tripletKey a b c" "tripletKey b a c = tripletKey a b c"
    "tripletKey b c a = tripletKey a b c" "tripletKey c a b = tripletKey a b c"
    "tripletKey c b a = tripletKey a b c"
    unfolding tripletKey_def by (simp_all only: 1 2 3 4 5)
qed

lemma registry_plain:
  "p \<in> set planetKeys \<Longrightarrow> p \<notin> set objectPrototypeNames \<and> CHR ''-'' \<notin> set p"
  by (auto simp: planetKeys_def objectPrototypeNames_def)

lemma ensureGroup_plain: "p \<notin> set objectPrototypeNames \<Longrightarrow> ensureGroup p g = ensureOwn p g"
  by (simp add: ensureGroup_def ensureOwn_def)

lemma groupAdd_own: "p \<in> fst ` set g \<Longrightarrow> groupAdd p q g = Inr (addMember p q g)"
  by (simp add: groupAdd_def addMember_def map_of_eq_None_iff)

lemma addTrine_plain:
  assumes "planet1 t \<notin> set objectPrototypeNames" "planet2 t \<notin> set objectPrototypeNames"
  shows "addTrine g t = Inr (joinTrine g t)"
proof -
  define g' where "g' = ensureOwn (planet2 t) (ensureOwn (planet1 t) g)"
  have k: "planet1 t \<in> fst ` set g'" "planet2 t \<in> fst ` set g'"
    by (simp_all add: g'_def keys_ensureOwn)
  have "planet2 t \<in> set (map fst (addMember (planet1 t) (planet2 t) g'))"
    using k(2) by (simp only: keys_addMember) simp
  then have k2: "planet2 t \<in> fst ` set (addMember (planet1 t) (planet2 t) g')" by simp
  show ?thesis
    by (simp add: addTrine_def joinTrine_def Let_def ensureGroup_plain assms g'_def [symmetric]
        groupAdd_own [OF k(1)] groupAdd_own [OF k2])
qed

lemma forEachTrine_plain:
  assumes "\<forall>t \<in> set ts. planet1 t \<notin> set objectPrototypeNames \<and> planet2 t \<notin> set objectPrototypeNames"
  shows "forEachTrine g ts = Inr (foldl joinTrine g ts)"
  using assms by (induction ts arbitrary: g) (simp_all add: addTrine_plain)

lemma element_of_sign:
  fixes l :: real
  assumes "0 \<le> l" "l < 360"
  shows "getSignElement \<lfloor>l / 30\<rfloor> = Some (signElements ! nat \<lfloor>l / 30\<rfloor>)"
proof -
  have t: "\<forall>s \<in> set [0..11]. getSignElement s = Some (signElements ! nat s)" by code_simp
  from assms have "0 \<le> l / 30" "l / 30 < 12" by simp_all
  then have "0 \<le> \<lfloor>l / 30\<rfloor>" "\<lfloor>l / 30\<rfloor> \<le> 11" by linarith+
  then have "\<lfloor>l / 30\<rfloor> \<in> set [0..11]" by simp
  with t show ?thesis by blast
qed

text \<open>
  The search on a chart of the registry's planets whose longitudes are from 0 up to 360:
  for every three distinct planets \<open>A\<close>, \<open>B\<close>, \<open>C\<close> with a trine aspect between each two
  of them (stored in either order), \<open>findSpecialPatterns\<close> returns, exactly one of the
  patterns it reports has the sorted key of the three, that one is a Grand Trine tagged
  with the element of the sign of one of the three planets, and the key is the same for
  every order of the three planets.
\<close>

lemma grand_trine_once:
  assumes wf: "trinesWellFormed ch" and lr: "longitudesInRange ch"
    and ne: "A \<noteq> B" "B \<noteq> C" "A \<noteq> C"
    and ab: "aspectBetween ch ''trine'' A B"
    and bc: "aspectBetween ch ''trine'' B C"
    and ac: "aspectBetween ch ''trine'' A C"
  shows "\<exists>patterns. findSpecialPatterns ch = Inr patterns
      \<and> length (filter (\<lambda>p. patternPlanets p = tripletKey A B C) patterns) = 1
      \<and> (\<exists>X pos. X \<in> {A, B, C} \<and> map_of (chartPlanets ch) X = Some pos
            \<and> 0 \<le> \<lfloor>longitude pos / 30\<rfloor> \<and> \<lfloor>longitude pos / 30\<rfloor> \<le> 11
            \<and> GrandTrine (tripletKey A B C) (Some (signElements ! nat \<lfloor>longitude pos / 30\<rfloor>))
                \<in> set patterns)
      \<and> tripletKey A B C = join ''-'' (sort [A, B, C])
      \<and> tripletKey A C B = tripletKey A B C \<and> tripletKey B A C = tripletKey A B C
      \<and> tripletKey B C A = tripletKey A B C \<and> tripletKey C A B = tripletKey A B C
      \<and> tripletKey C B A = tripletKey A B C"
proof -
  define trines where "trines = filter (\<lambda>a. type a = ''trine'') (chartAspects ch)"
  define g where "g = foldl joinTrine [] trines"
  define pls where "pls = chartPlanets ch"
  define squares where "squares = filter (\<lambda>a. type a = ''square'') (chartAspects ch)"
  define oppositions where "oppositions = filter (\<lambda>a. type a = ''opposition'') (chartAspects ch)"
  have keys: "fst ` set g = planet1 ` set trines \<union> planet2 ` set trines"
    by (simp add: g_def keys_trineGroups)
  have mem: "members g k = {y. \<exists>t \<in> set trines. (planet1 t = k \<and> planet2 t = y) \<or> (planet2 t = k \<and> planet1 t = y)}"
    for k by (simp add: g_def members_trineGroups members_empty)
  have tr: "planet1 t \<in> set planetKeys \<and> planet2 t \<in> set planetKeys
      \<and> planet1 t \<in> fst ` set pls \<and> planet2 t \<in> fst ` set pls" if "t \<in> set trines" for t
    using wf that by (simp add: trinesWellFormed_def trines_def pls_def)
  have tw: "planet1 t \<in> fst ` set pls \<and> planet2 t \<in> fst ` set pls
      \<and> CHR ''-'' \<notin> set (planet1 t) \<and> CHR ''-'' \<notin> set (planet2 t)" if "t \<in> set trines" for t
    using tr [OF that] registry_plain by blast
  have "\<forall>t \<in> set trines. planet1 t \<notin> set objectPrototypeNames \<and> planet2 t \<notin> set objectPrototypeNames"
    using tr registry_plain by blast
  then have groups: "forEachTrine [] trines = Inr g"
    unfolding g_def by (rule forEachTrine_plain)
  have closed: "closedGroups g" unfolding g_def by (rule closed_trineGroups)
  have dom: "fst ` set g \<subseteq> fst ` set pls" unfolding keys using tw by blast
  have hy: "CHR ''-'' \<notin> set k" if "k \<in> fst ` set g" for k
    using that tw unfolding keys by blast
  have mk: "members g k \<subseteq> fst ` set g" for k
    using closed by (simp add: closedGroups_def)
  have joined: "y \<in> members g x" if "aspectBetween ch ''trine'' x y" for x y
  proof -
    from that obtain t where "t \<in> set trines" "joins t x y"
      by (auto simp: aspectBetween_def list_ex_iff trines_def)
    then show ?thesis unfolding mem joins_def by blast
  qed
  have sym: "x \<in> members g y" if "y \<in> members g x" for x y
    using that unfolding mem by blast
  have inv0: "trineInvariant pls g []" by (simp add: trineInvariant_def)
  from loopP1_step [OF inv0 closed dom subset_refl] obtain found where
    found: "loopP1 pls g g [] = Inr found" "trineInvariant pls g found"
      "\<forall>p1 \<in> fst ` set g. \<forall>p2 \<in> members g p1. \<forall>p3 \<in> members g p1.
            p2 \<noteq> p3 \<and> p3 \<in> members g p2 \<longrightarrow>
            tripletKey p1 p2 p3 \<in> patternPlanets ` set found"
    by blast
  define patterns where "patterns = foldl (considerOpposition squares) found oppositions"
  have run: "findSpecialPatterns ch = Inr patterns"
    by (simp add: findSpecialPatterns_def Let_def trines_def [symmetric] groups
        pls_def [symmetric] found(1) patterns_def
        squares_def [symmetric] oppositions_def [symmetric])
  have mB: "B \<in> members g A" and mC: "C \<in> members g A" and mCB: "C \<in> members g B"
    using ab ac bc by (simp_all add: joined)
  have kA: "A \<in> fst ` set g" using sym [OF mB] mk by blast
  from found(3) kA mB mC mCB ne(2) have "tripletKey A B C \<in> patternPlanets ` set found" by blast
  then obtain p where p: "p \<in> set found" "patternPlanets p = tripletKey A B C" by auto
  from found(2) have d0: "distinct (map patternPlanets found)" by (simp add: trineInvariant_def)
  from oppositions_keep [of found squares oppositions] d0
  have sub: "set found \<subseteq> set patterns" and d: "distinct (map patternPlanets patterns)"
    by (simp_all add: patterns_def)
  from p sub have pin: "p \<in> set patterns" by blast
  from distinct_key_once [OF d pin]
  have once: "length (filter (\<lambda>q. patternPlanets q = tripletKey A B C) patterns) = 1"
    by (simp only: p(2))
  from found(2) p(1) have "trinePattern pls g p" by (simp add: trineInvariant_def)
  then obtain p1 p2 p3 pos where
    t: "p = GrandTrine (tripletKey p1 p2 p3) (getSignElement \<lfloor>longitude pos / 30\<rfloor>)"
      "map_of pls p1 = Some pos" "p1 \<in> fst ` set g" "p2 \<in> members g p1" "p3 \<in> members g p1"
    unfolding trinePattern_def by blast
  from t(1) p(2) have e: "tripletKey p1 p2 p3 = tripletKey A B C" by simp
  have "\<forall>x \<in> {p1, p2, p3}. CHR ''-'' \<notin> set x" using t(3,4,5) mk hy by blast
  moreover have "\<forall>x \<in> {A, B, C}. CHR ''-'' \<notin> set x" using kA mB mC mk hy by blast
  ultimately have "{p1, p2, p3} = {A, B, C}" using e by (rule tripletKey_same_planets)
  then have "p1 \<in> {A, B, C}" by blast
  moreover from t(2) have "(p1, pos) \<in> set (chartPlanets ch)"
    unfolding pls_def by (rule map_of_SomeD)
  with lr have r: "0 \<le> longitude pos" "longitude pos < 360"
    by (auto simp: longitudesInRange_def)
  then have "0 \<le> longitude pos / 30" "longitude pos / 30 < 12" by simp_all
  then have s: "0 \<le> \<lfloor>longitude pos / 30\<rfloor>" "\<lfloor>longitude pos / 30\<rfloor> \<le> 11" by linarith+
  have "GrandTrine (tripletKey A B C) (Some (signElements ! nat \<lfloor>longitude pos / 30\<rfloor>)) \<in> set patterns"
    using pin t(1) e element_of_sign [OF r] by simp
  ultimately have tag: "\<exists>X pos. X \<in> {A, B, C} \<and> map_of (chartPlanets ch) X = Some pos
            \<and> 0 \<le> \<lfloor>longitude pos / 30\<rfloor> \<and> \<lfloor>longitude pos / 30\<rfloor> \<le> 11
            \<and> GrandTrine (tripletKey A B C) (Some (signElements ! nat \<lfloor>longitude pos / 30\<rfloor>))
                \<in> set patterns"
    using t(2) s unfolding pls_def by blast
  from run once tag tripletKey_permuted [of A C B] show ?thesis
    by (simp add: tripletKey_def [of A B C])
qed

text \<open>The same three planets at 0, 120 and 240 degrees: one Grand Trine, of Fire.\<close>

lemma grand_trine_chart:
  "trinesWellFormed (chartWith [0, 120, 10, 12, 240, 14, 16, 18, 20, 21])
   \<and> longitudesInRange (chartWith [0, 120, 10, 12, 240, 14, 16, 18, 20, 21])
   \<and> aspectBetween (chartWith [0, 120, 10, 12, 240, 14, 16, 18, 20, 21]) ''trine'' ''sun'' ''moon''
   \<and> aspectBetween (chartWith [0, 120, 10, 12, 240, 14, 16, 18, 20, 21]) ''trine'' ''moon'' ''mars''
   \<and> aspectBetween (chartWith [0, 120, 10, 12, 240, 14, 16, 18, 20, 21]) ''trine'' ''sun'' ''mars''
   \<and> findSpecialPatterns (chartWith [0, 120, 10, 12, 240, 14, 16, 18, 20, 21])
        = Inr [GrandTrine ''mars-moon-sun'' (Some ''Fire'')]
   \<and> tripletKey ''sun'' ''moon'' ''mars'' = ''mars-moon-sun''"
  by code_simp

text \<open>
  C7 on a chart whose Sun has a negative longitude, as \<open>calculatePlanetaryPositions\<close> emits
  them for dates before the epoch: with the Sun at -2.8, the Moon at 117.2 and Mars at
  237.2 degrees (and the other planets between 10 and 21 degrees), each two of the three
  are in trine. The search reports one Grand Trine with the key \<open>mars-moon-sun\<close>, and its
  element is \<open>undefined\<close>: the element is read at the Sun's sign index, which is -1. The
  Moon is in sign 3 and Mars in sign 7, both of the element Water.
\<close>

theorem C7_untagged_grand_trine:
  "aspectBetween (chartWith [- 2.8, 117.2, 10, 12, 237.2, 14, 16, 18, 20, 21]) ''trine'' ''sun'' ''moon''
   \<and> aspectBetween (chartWith [- 2.8, 117.2, 10, 12, 237.2, 14, 16, 18, 20, 21]) ''trine'' ''moon'' ''mars''
   \<and> aspectBetween (chartWith [- 2.8, 117.2, 10, 12, 237.2, 14, 16, 18, 20, 21]) ''trine'' ''sun'' ''mars''
   \<and> map (\<lambda>(planet, pos). (planet, sign pos))
        (filter (\<lambda>(planet, pos). planet \<in> {''sun'', ''moon'', ''mars''})
           (chartPlanets (chartWith [- 2.8, 117.2, 10, 12, 237.2, 14, 16, 18, 20, 21])))
       = [(''sun'', - 1), (''moon'', 3), (''mars'', 7)]
   \<and> getSignElement 3 = Some ''Water'' \<and> getSignElement 7 = Some ''Water''
   \<and> getSignElement (- 1) = None
   \<and> findSpecialPatterns (chartWith [- 2.8, 117.2, 10, 12, 237.2, 14, 16, 18, 20, 21])
        = Inr [GrandTrine ''mars-moon-sun'' None]"
  by code_simp

text \<open>A trine with a planet named as a property of \<open>Object.prototype\<close> ends the search.\<close>

lemma inherited_name:
  "forEachTrine []
     [\<lparr>planet1 = ''sun'', planet2 = ''constructor'', type = ''trine'', angle = 120, orb = 0,
       aspectName = ''Trine'', influence = ''Harmonious'', applying = False\<rparr>] = Inl TypeError"
  by code_simp

end
